theory Spec2Isabelle
  imports Main "HOL-Library.Word"
begin

section \<open>Strings\<close>

text \<open>
  A JavaScript string is a sequence of 16-bit code units. Literals of the source that are
  not ASCII are written as their code units; ASCII literals are embedded with \<open>js\<close>.
\<close>

type_synonym jschar = "16 word"
type_synonym jsstring = "jschar list"

definition js :: "string \<Rightarrow> jsstring" where
  "js s = map of_char s"

section \<open>Data model (shared/types.ts)\<close>

record TableData =
  headers :: "jsstring list"
  rows :: "jsstring list list"

text \<open>
  The three response types. The optional second field is \<open>None\<close> where the source has
  \<open>undefined\<close>. The router parses the model's answer into an anonymous type of the same
  shape as the response it returns, so one record serves for both.
\<close>

record RecognizeTableResponse =
  tableData :: TableData
  title :: "jsstring option"

record SearchAndFillResponse =
  tableData :: TableData
  searchSummary :: "jsstring option"

record ModifyTableResponse =
  tableData :: TableData
  explanation :: "jsstring option"

section \<open>JavaScript primitives the router relies on\<close>

text \<open>\<open>xs[i]\<close>: reading past the end of an array gives \<open>undefined\<close>, here \<open>None\<close>.\<close>

definition js_index :: "'a list \<Rightarrow> nat \<Rightarrow> 'a option" where
  "js_index xs i = (if i < length xs then Some (xs ! i) else None)"

text \<open>
  \<open>a || b\<close> on values that are a string or \<open>undefined\<close>: the left operand is taken when
  it is truthy, and a string is truthy when it is not empty.
\<close>

definition truthy :: "jsstring option \<Rightarrow> bool" where
  "truthy v = (case v of None \<Rightarrow> False | Some s \<Rightarrow> s \<noteq> [])"

definition js_or :: "jsstring option \<Rightarrow> jsstring option \<Rightarrow> jsstring option" where
  "js_or a b = (if truthy a then a else b)"

text \<open>\<open>a || ''\<close>, which is always a string.\<close>

definition or_empty :: "jsstring option \<Rightarrow> jsstring" where
  "or_empty a = (case a of None \<Rightarrow> [] | Some s \<Rightarrow> s)"

text \<open>\<open>xs.map((x, idx) => f(x, idx))\<close>.\<close>

definition map_idx :: "('a \<Rightarrow> nat \<Rightarrow> 'b) \<Rightarrow> 'a list \<Rightarrow> 'b list" where
  "map_idx f xs = map (\<lambda>(x, idx). f x idx) (zip xs [0..<length xs])"

section \<open>Response extraction: parseJsonResponse\<close>

text \<open>
  The characters matched by \<open>\s\<close> in a regular expression without the unicode flag, which are
  also the characters \<open>String.prototype.trim\<close> removes: white space and line terminators.
\<close>

definition is_space :: "jschar \<Rightarrow> bool" where
  "is_space c \<longleftrightarrow>
     c = 0x09 \<or> c = 0x0A \<or> c = 0x0B \<or> c = 0x0C \<or> c = 0x0D \<or> c = 0x20 \<or> c = 0xA0 \<or>
     c = 0x1680 \<or> (0x2000 \<le> c \<and> c \<le> 0x200A) \<or> c = 0x2028 \<or> c = 0x2029 \<or>
     c = 0x202F \<or> c = 0x205F \<or> c = 0x3000 \<or> c = 0xFEFF"

definition trim :: "jsstring \<Rightarrow> jsstring" where
  "trim s = rev (dropWhile is_space (rev (dropWhile is_space s)))"

definition fence :: jsstring where
  "fence = [0x60, 0x60, 0x60]"

definition json_tag :: jsstring where
  "json_tag = js ''json''"

text \<open>
  \<open>content.match(/```(?:json)?\s*([\s\S]*?)```/)\<close>, as a backtracking matcher that returns
  the text of capture group 1 of the leftmost match, or \<open>None\<close> when there is no match.

  \<^item> \<open>lazy_capture\<close> is \<open>([\s\S]*?)```\<close>: the group takes as few characters as possible, so
    it ends at the first position where the closing fence follows.
  \<^item> \<open>spaces_then_capture\<close> is \<open>\s*\<close> followed by the rest: greedy, so it first tries to
    take one more white-space character and gives it back when the rest then fails.
  \<^item> \<open>match_here\<close> is the whole pattern anchored at the start of its argument:
    \<open>(?:json)?\<close> is greedy too, the tag is taken first and skipped only on failure.
  \<^item> \<open>regex_match\<close> tries every start position from left to right.
\<close>

fun lazy_capture :: "jsstring \<Rightarrow> jsstring option" where
  "lazy_capture [] = None"
| "lazy_capture (c # cs) =
     (if take 3 (c # cs) = fence then Some []
      else map_option ((#) c) (lazy_capture cs))"

fun spaces_then_capture :: "jsstring \<Rightarrow> jsstring option" where
  "spaces_then_capture [] = lazy_capture []"
| "spaces_then_capture (c # cs) =
     (if is_space c then
        (case spaces_then_capture cs of
           Some g \<Rightarrow> Some g
         | None \<Rightarrow> lazy_capture (c # cs))
      else lazy_capture (c # cs))"

definition match_here :: "jsstring \<Rightarrow> jsstring option" where
  "match_here s =
     (if take 3 s = fence then
        (let r = drop 3 s in
         if take 4 r = json_tag then
           (case spaces_then_capture (drop 4 r) of
              Some g \<Rightarrow> Some g
            | None \<Rightarrow> spaces_then_capture r)
         else spaces_then_capture r)
      else None)"

fun regex_match :: "jsstring \<Rightarrow> jsstring option" where
  "regex_match [] = match_here []"
| "regex_match (c # cs) =
     (case match_here (c # cs) of
        Some g \<Rightarrow> Some g
      | None \<Rightarrow> regex_match cs)"

text \<open>
  \<open>parseJsonResponse\<close>. \<open>JSON.parse\<close> is the runtime's built-in and not part of the
  repository: it is the parameter \<open>JSON_parse\<close>, with \<open>None\<close> for the \<open>SyntaxError\<close> it
  throws. The source casts the parsed value to the expected type without checking it;
  the model takes the cast at its word, so a parsed value has the declared shape.
\<close>

definition parseJsonResponse :: "(jsstring \<Rightarrow> 'a option) \<Rightarrow> jsstring \<Rightarrow> 'a option" where
  "parseJsonResponse JSON_parse content =
     (let jsonMatch = regex_match content;
          jsonStr = (case jsonMatch of Some g \<Rightarrow> trim g | None \<Rightarrow> trim content)
      in JSON_parse jsonStr)"

section \<open>The model invocation\<close>

text \<open>
  What the operations see of \<open>invokeLLM\<close>: it either throws (missing API key, HTTP status
  not ok, network error), or returns a result whose \<open>choices[0]?.message?.content\<close> is a
  string, or \<open>undefined\<close> when there is no first choice. The prompt an operation builds
  from the table and the instruction only influences which of these outcomes arrives, so
  the outcome is a parameter of each operation.
\<close>

datatype error = LLMInvokeFailed | FailedToGetResponse

type_synonym llm_outcome = "error + jsstring option"

text \<open>
  The lines before each \<open>try\<close>: the call of \<open>invokeLLM\<close> and the guard
  \<open>if (!responseContent || typeof responseContent !== 'string') throw ...\<close>. Both are
  outside the \<open>try\<close> block, so their errors reach the caller. An empty string is falsy.
\<close>

definition responseContent :: "llm_outcome \<Rightarrow> error + jsstring" where
  "responseContent result =
     (case result of
        Inl e \<Rightarrow> Inl e
      | Inr None \<Rightarrow> Inl FailedToGetResponse
      | Inr (Some content) \<Rightarrow> if content = [] then Inl FailedToGetResponse else Inr content)"

section \<open>recognizeFromImage\<close>

definition fallback_title :: jsstring where
  "fallback_title = [0x8BC6, 0x522B, 0x7684, 0x8868, 0x683C]"

definition fallback_table :: TableData where
  "fallback_table =
     \<lparr> headers = [[0x5217, 0x31], [0x5217, 0x32], [0x5217, 0x33]],
       rows = [[[0x65E0, 0x6CD5, 0x8BC6, 0x522B], [], []]] \<rparr>"

definition recognizeFromImage ::
  "(jsstring \<Rightarrow> RecognizeTableResponse option) \<Rightarrow> llm_outcome \<Rightarrow> error + RecognizeTableResponse"
where
  "recognizeFromImage JSON_parse result =
     (case responseContent result of
        Inl e \<Rightarrow> Inl e
      | Inr content \<Rightarrow>
          Inr (case parseJsonResponse JSON_parse content of
                 Some parsed \<Rightarrow>
                   \<lparr> RecognizeTableResponse.tableData = RecognizeTableResponse.tableData parsed,
                     title = title parsed \<rparr>
               | None \<Rightarrow>
                   \<lparr> RecognizeTableResponse.tableData = fallback_table,
                     title = Some fallback_title \<rparr>))"

section \<open>Column normalisation\<close>

text \<open>
  The last step of \<open>searchAndFill\<close> and the only step of \<open>modifyTable\<close>, written twice in
  the source with the same body; \<open>n\<close> is the column count each uses.
  \<open>pad_loop\<close> is \<open>for (let i = row.length; i < n; i++) padded.push(originalRow[i] || '')\<close>.
\<close>

function pad_loop :: "nat \<Rightarrow> nat \<Rightarrow> jsstring list \<Rightarrow> jsstring list \<Rightarrow> jsstring list" where
  "pad_loop n i originalRow padded =
     (if i < n then pad_loop n (i + 1) originalRow (padded @ [or_empty (js_index originalRow i)])
      else padded)"
  by pat_completeness auto
termination
  by (relation "measure (\<lambda>(n, i, originalRow, padded). n - i)") auto

definition ensure_columns ::
  "nat \<Rightarrow> jsstring list list \<Rightarrow> jsstring list \<Rightarrow> nat \<Rightarrow> jsstring list" where
  "ensure_columns n original_rows row idx =
     (let originalRow = (case js_index original_rows idx of Some r \<Rightarrow> r | None \<Rightarrow> [])
      in if length row < n then pad_loop n (length row) originalRow row
         else if length row > n then take n row
         else row)"

section \<open>searchAndFill\<close>

text \<open>
  \<open>result[result.length - 1] = matchedRow[matchedRow.length - 1]\<close> on the copy of the
  original row. On an empty \<open>result\<close> the assignment sets the property \<open>-1\<close> and leaves the
  array's elements as they are. A non-empty \<open>result\<close> with an empty \<open>matchedRow\<close> does not
  occur: the rows were matched on their first entries (lemma \<open>matched_row_nonempty\<close>).
\<close>

definition set_last :: "jsstring list \<Rightarrow> jsstring list \<Rightarrow> jsstring list" where
  "set_last result matchedRow =
     (if result = [] \<or> matchedRow = [] then result
      else result[length result - 1 := matchedRow ! (length matchedRow - 1)])"

text \<open>The branch for a candidate whose row count differs: one row per original row.\<close>

definition match_row :: "nat \<Rightarrow> jsstring list list \<Rightarrow> jsstring list \<Rightarrow> jsstring list" where
  "match_row n candidate_rows originalRow =
     (case find (\<lambda>newRow. js_index newRow 0 = js_index originalRow 0) candidate_rows of
        Some matchedRow \<Rightarrow>
          (let result = originalRow
           in if length matchedRow \<ge> n then set_last result matchedRow else result)
      | None \<Rightarrow> originalRow)"

text \<open>
  The branch for a candidate with the original's row count: the loop
  \<open>for (let col = 0; col < n; col++) result.push(...)\<close>. The source's test
  \<open>col < n - 1\<close> is on JavaScript numbers; on naturals it is written \<open>col + 1 < n\<close>.
\<close>

function fill_loop ::
  "nat \<Rightarrow> nat \<Rightarrow> jsstring list \<Rightarrow> jsstring list \<Rightarrow> jsstring list \<Rightarrow> jsstring list" where
  "fill_loop n col originalRow newRow result =
     (if col < n then
        fill_loop n (col + 1) originalRow newRow
          (result @
            [if col = 0 then or_empty (js_index originalRow col)
             else if col + 1 < n then
               or_empty (js_or (js_index originalRow col) (js_index newRow col))
             else or_empty (js_or (js_index newRow col) (js_index originalRow col))])
      else result)"
  by pat_completeness auto
termination
  by (relation "measure (\<lambda>(n, col, originalRow, newRow, result). n - col)") auto

text \<open>
  \<open>const originalRow = tableData.rows[idx]\<close> in that branch: \<open>idx\<close> runs over the candidate's
  rows, which are as many as the original's there, so the read is in range; the model
  gives the empty row otherwise.
\<close>

definition preserve_row :: "nat \<Rightarrow> jsstring list list \<Rightarrow> jsstring list \<Rightarrow> nat \<Rightarrow> jsstring list" where
  "preserve_row n original_rows newRow idx =
     (let originalRow = (case js_index original_rows idx of Some r \<Rightarrow> r | None \<Rightarrow> [])
      in fill_loop n 0 originalRow newRow [])"

text \<open>The body of the \<open>try\<close> block after a successful parse.\<close>

definition searchAndFill_enforce :: "TableData \<Rightarrow> SearchAndFillResponse \<Rightarrow> SearchAndFillResponse" where
  "searchAndFill_enforce original parsed =
     (let n = length (headers original);
          candidate_rows = rows (SearchAndFillResponse.tableData parsed);
          rows2 =
            (if length candidate_rows \<noteq> length (rows original)
             then map (match_row n candidate_rows) (rows original)
             else map_idx (preserve_row n (rows original)) candidate_rows);
          rows3 = map_idx (ensure_columns n (rows original)) rows2
      in \<lparr> SearchAndFillResponse.tableData = \<lparr> headers = headers original, rows = rows3 \<rparr>,
           searchSummary = searchSummary parsed \<rparr>)"

definition processing_failed :: jsstring where
  "processing_failed = [0x5904, 0x7406, 0x5931, 0x8D25, 0xFF0C, 0x8BF7, 0x91CD, 0x8BD5]"

definition searchAndFill ::
  "(jsstring \<Rightarrow> SearchAndFillResponse option) \<Rightarrow> llm_outcome \<Rightarrow> TableData
     \<Rightarrow> error + SearchAndFillResponse"
where
  "searchAndFill JSON_parse result original =
     (case responseContent result of
        Inl e \<Rightarrow> Inl e
      | Inr content \<Rightarrow>
          Inr (case parseJsonResponse JSON_parse content of
                 Some parsed \<Rightarrow> searchAndFill_enforce original parsed
               | None \<Rightarrow>
                   \<lparr> SearchAndFillResponse.tableData = original,
                     searchSummary = Some processing_failed \<rparr>))"

section \<open>modifyTable\<close>

definition modifyTable_enforce :: "TableData \<Rightarrow> ModifyTableResponse \<Rightarrow> ModifyTableResponse" where
  "modifyTable_enforce original parsed =
     (let expectedCols = length (headers (ModifyTableResponse.tableData parsed));
          rows2 = map_idx (ensure_columns expectedCols (rows original))
                    (rows (ModifyTableResponse.tableData parsed))
      in \<lparr> ModifyTableResponse.tableData =
             \<lparr> headers = headers (ModifyTableResponse.tableData parsed), rows = rows2 \<rparr>,
           explanation = explanation parsed \<rparr>)"

definition modifyTable ::
  "(jsstring \<Rightarrow> ModifyTableResponse option) \<Rightarrow> llm_outcome \<Rightarrow> TableData
     \<Rightarrow> error + ModifyTableResponse"
where
  "modifyTable JSON_parse result original =
     (case responseContent result of
        Inl e \<Rightarrow> Inl e
      | Inr content \<Rightarrow>
          Inr (case parseJsonResponse JSON_parse content of
                 Some parsed \<Rightarrow> modifyTable_enforce original parsed
               | None \<Rightarrow>
                   \<lparr> ModifyTableResponse.tableData = original,
                     explanation = Some processing_failed \<rparr>))"

section \<open>Notions used to state the properties\<close>

text \<open>The cell of a row at a column, where a missing cell reads as the empty string.\<close>

definition cell :: "jsstring list \<Rightarrow> nat \<Rightarrow> jsstring" where
  "cell row col = (if col < length row then row ! col else [])"

text \<open>A row cut to \<open>n\<close> cells, or filled up to \<open>n\<close> cells with empty strings.\<close>

definition fit :: "nat \<Rightarrow> jsstring list \<Rightarrow> jsstring list" where
  "fit n row = take n row @ replicate (n - length row) []"

text \<open>What one round of \<open>fill_loop\<close> appends.\<close>

definition fill_cell :: "nat \<Rightarrow> jsstring list \<Rightarrow> jsstring list \<Rightarrow> nat \<Rightarrow> jsstring" where
  "fill_cell n originalRow newRow col =
     (if col = 0 then cell originalRow col
      else if col + 1 < n then
        (if cell originalRow col \<noteq> [] then cell originalRow col else cell newRow col)
      else (if cell newRow col \<noteq> [] then cell newRow col else cell originalRow col))"

text \<open>
  The extraction policy in the words of the specification: the first fenced block is the
  text between the first fence and the next fence after it; when there is one, its content
  without the optional tag is trimmed and parsed, otherwise the trimmed text is parsed.
\<close>

fun find_fence :: "jsstring \<Rightarrow> nat option" where
  "find_fence [] = None"
| "find_fence (c # cs) =
     (if take 3 (c # cs) = fence then Some 0 else map_option Suc (find_fence cs))"

definition first_fenced_block :: "jsstring \<Rightarrow> jsstring option" where
  "first_fenced_block text =
     (case find_fence text of
        None \<Rightarrow> None
      | Some i \<Rightarrow>
          (let after = drop 3 (drop i text)
           in case find_fence after of
                None \<Rightarrow> None
              | Some j \<Rightarrow> Some (take j after)))"

definition strip_tag :: "jsstring \<Rightarrow> jsstring" where
  "strip_tag inner = (if take 4 inner = json_tag then drop 4 inner else inner)"

definition extractJson :: "(jsstring \<Rightarrow> 'a option) \<Rightarrow> jsstring \<Rightarrow> 'a option" where
  "extractJson JSON_parse text =
     (case first_fenced_block text of
        Some inner \<Rightarrow> JSON_parse (trim (strip_tag inner))
      | None \<Rightarrow> JSON_parse (trim text))"

text \<open>A payload wrapped in a fenced block tagged \<open>json\<close>, each fence on a line of its own.\<close>

definition fenced :: "jsstring \<Rightarrow> jsstring" where
  "fenced payload = fence @ json_tag @ [0x0A] @ payload @ [0x0A] @ fence"

text \<open>
  A stand-in for \<open>JSON.parse\<close> in examples: it knows one JSON text and the value that text
  denotes, and throws on every other text.
\<close>

definition JSON_parse_only :: "jsstring \<Rightarrow> 'a \<Rightarrow> jsstring \<Rightarrow> 'a option" where
  "JSON_parse_only payload v s = (if s = payload then Some v else None)"

section \<open>Closed forms of the loops\<close>

declare pad_loop.simps [simp del] fill_loop.simps [simp del]

lemma length_map_idx: "length (map_idx f xs) = length xs"
  by (simp add: map_idx_def)

lemma nth_map_idx: "i < length xs \<Longrightarrow> map_idx f xs ! i = f (xs ! i) i"
  by (simp add: map_idx_def)

lemma or_empty_js_index: "or_empty (js_index row col) = cell row col"
  by (simp add: or_empty_def js_index_def cell_def)

lemma or_empty_js_or:
  "or_empty (js_or (js_index a col) (js_index b col)) =
     (if cell a col \<noteq> [] then cell a col else cell b col)"
  by (simp add: or_empty_def js_or_def truthy_def js_index_def cell_def)

lemma pad_loop_eq:
  "pad_loop n i originalRow padded = padded @ map (cell originalRow) [i..<n]"
proof (induction n i originalRow padded rule: pad_loop.induct)
  case (1 n i originalRow padded)
  show ?case
  proof (cases "i < n")
    case True
    then show ?thesis
      using "1.IH" by (subst pad_loop.simps) (simp add: upt_conv_Cons or_empty_js_index)
  next
    case False
    then show ?thesis by (subst pad_loop.simps) simp
  qed
qed

lemma fill_loop_eq:
  "fill_loop n col originalRow newRow result =
     result @ map (fill_cell n originalRow newRow) [col..<n]"
proof (induction n col originalRow newRow result rule: fill_loop.induct)
  case (1 n col originalRow newRow result)
  show ?case
  proof (cases "col < n")
    case True
    then show ?thesis
      using "1.IH"
      by (subst fill_loop.simps)
         (simp add: upt_conv_Cons or_empty_js_index or_empty_js_or fill_cell_def)
  next
    case False
    then show ?thesis by (subst fill_loop.simps) simp
  qed
qed

lemma original_row_at:
  "(case js_index original_rows idx of Some r \<Rightarrow> r | None \<Rightarrow> []) =
     (if idx < length original_rows then original_rows ! idx else [])"
  by (simp add: js_index_def)

lemma ensure_columns_eq:
  "ensure_columns n original_rows row idx =
     take n row @
     map (cell (if idx < length original_rows then original_rows ! idx else []))
       [length row..<n]"
  by (simp add: ensure_columns_def original_row_at pad_loop_eq Let_def)

lemma length_ensure_columns: "length (ensure_columns n original_rows row idx) = n"
  by (simp add: ensure_columns_eq)

lemma nth_ensure_columns:
  "c < n \<Longrightarrow>
   ensure_columns n original_rows row idx ! c =
     (if c < length row then row ! c
      else cell (if idx < length original_rows then original_rows ! idx else []) c)"
  by (simp add: ensure_columns_eq nth_append)

lemma ensure_columns_exact: "length row = n \<Longrightarrow> ensure_columns n original_rows row idx = row"
  by (simp add: ensure_columns_eq)

lemma preserve_row_eq:
  "idx < length original_rows \<Longrightarrow>
   preserve_row n original_rows newRow idx =
     map (fill_cell n (original_rows ! idx) newRow) [0..<n]"
  by (simp add: preserve_row_def original_row_at fill_loop_eq)

section \<open>The paths through the three operations\<close>

lemma responseContent_content:
  "content \<noteq> [] \<Longrightarrow> responseContent (Inr (Some content)) = Inr content"
  by (simp add: responseContent_def)

lemma searchAndFill_parsed:
  "content \<noteq> [] \<Longrightarrow> parseJsonResponse JSON_parse content = Some parsed \<Longrightarrow>
   searchAndFill JSON_parse (Inr (Some content)) original =
     Inr (searchAndFill_enforce original parsed)"
  by (simp add: searchAndFill_def responseContent_content)

lemma searchAndFill_unparsed:
  "content \<noteq> [] \<Longrightarrow> parseJsonResponse JSON_parse content = None \<Longrightarrow>
   searchAndFill JSON_parse (Inr (Some content)) original =
     Inr \<lparr> SearchAndFillResponse.tableData = original, searchSummary = Some processing_failed \<rparr>"
  by (simp add: searchAndFill_def responseContent_content)

lemma modifyTable_parsed:
  "content \<noteq> [] \<Longrightarrow> parseJsonResponse JSON_parse content = Some parsed \<Longrightarrow>
   modifyTable JSON_parse (Inr (Some content)) original =
     Inr (modifyTable_enforce original parsed)"
  by (simp add: modifyTable_def responseContent_content)

lemma modifyTable_unparsed:
  "content \<noteq> [] \<Longrightarrow> parseJsonResponse JSON_parse content = None \<Longrightarrow>
   modifyTable JSON_parse (Inr (Some content)) original =
     Inr \<lparr> ModifyTableResponse.tableData = original, explanation = Some processing_failed \<rparr>"
  by (simp add: modifyTable_def responseContent_content)

lemma recognizeFromImage_parsed:
  "content \<noteq> [] \<Longrightarrow> parseJsonResponse JSON_parse content = Some parsed \<Longrightarrow>
   recognizeFromImage JSON_parse (Inr (Some content)) =
     Inr \<lparr> RecognizeTableResponse.tableData = RecognizeTableResponse.tableData parsed,
           title = title parsed \<rparr>"
  by (simp add: recognizeFromImage_def responseContent_content)

lemma recognizeFromImage_unparsed:
  "content \<noteq> [] \<Longrightarrow> parseJsonResponse JSON_parse content = None \<Longrightarrow>
   recognizeFromImage JSON_parse (Inr (Some content)) =
     Inr \<lparr> RecognizeTableResponse.tableData = fallback_table, title = Some fallback_title \<rparr>"
  by (simp add: recognizeFromImage_def responseContent_content)

lemma searchAndFill_cases:
  assumes "searchAndFill JSON_parse result original = Inr out"
  obtains parsed where "out = searchAndFill_enforce original parsed"
  | "out = \<lparr> SearchAndFillResponse.tableData = original,
             searchSummary = Some processing_failed \<rparr>"
  using assms
  by (auto simp: searchAndFill_def split: sum.splits option.splits)

lemma searchAndFill_returns:
  "result = Inr (Some content) \<Longrightarrow> content \<noteq> [] \<Longrightarrow>
   \<exists>out. searchAndFill JSON_parse result original = Inr out"
  by (simp add: searchAndFill_def responseContent_def)

lemma searchAndFill_enforce_headers:
  "headers (SearchAndFillResponse.tableData (searchAndFill_enforce original parsed)) =
     headers original"
  by (simp add: searchAndFill_enforce_def Let_def)

lemma searchAndFill_enforce_length:
  "length (rows (SearchAndFillResponse.tableData (searchAndFill_enforce original parsed))) =
     length (rows original)"
  by (simp add: searchAndFill_enforce_def Let_def length_map_idx)

lemma searchAndFill_enforce_columns:
  "r \<in> set (rows (SearchAndFillResponse.tableData (searchAndFill_enforce original parsed))) \<Longrightarrow>
   length r = length (headers original)"
  by (auto simp: searchAndFill_enforce_def Let_def map_idx_def length_ensure_columns)

lemma modifyTable_enforce_headers:
  "headers (ModifyTableResponse.tableData (modifyTable_enforce original parsed)) =
     headers (ModifyTableResponse.tableData parsed)"
  by (simp add: modifyTable_enforce_def Let_def)

lemma modifyTable_enforce_length:
  "length (rows (ModifyTableResponse.tableData (modifyTable_enforce original parsed))) =
     length (rows (ModifyTableResponse.tableData parsed))"
  by (simp add: modifyTable_enforce_def Let_def length_map_idx)

lemma modifyTable_enforce_row:
  "idx < length (rows (ModifyTableResponse.tableData parsed)) \<Longrightarrow>
   rows (ModifyTableResponse.tableData (modifyTable_enforce original parsed)) ! idx =
     ensure_columns (length (headers (ModifyTableResponse.tableData parsed))) (rows original)
       (rows (ModifyTableResponse.tableData parsed) ! idx) idx"
  by (simp add: modifyTable_enforce_def Let_def nth_map_idx)

lemma modifyTable_enforce_columns:
  "r \<in> set (rows (ModifyTableResponse.tableData (modifyTable_enforce original parsed))) \<Longrightarrow>
   length r = length (headers (ModifyTableResponse.tableData parsed))"
  by (auto simp: modifyTable_enforce_def Let_def map_idx_def length_ensure_columns)

section \<open>Structural invariants of searchAndFill\<close>

text \<open>
  C4. Whatever \<open>searchAndFill\<close> returns carries the original headers, whether the answer
  was parsed and reconciled or the parse failed and the original table came back; and it
  does return whenever the model gave a non-empty answer.
\<close>

theorem searchAndFill_headers:
  "(\<forall>out. searchAndFill JSON_parse result original = Inr out \<longrightarrow>
       headers (SearchAndFillResponse.tableData out) = headers original) \<and>
   (\<forall>content. result = Inr (Some content) \<and> content \<noteq> [] \<longrightarrow>
       (\<exists>out. searchAndFill JSON_parse result original = Inr out))"
proof (intro conjI allI impI)
  fix out
  assume "searchAndFill JSON_parse result original = Inr out"
  then show "headers (SearchAndFillResponse.tableData out) = headers original"
    by (rule searchAndFill_cases) (simp_all add: searchAndFill_enforce_headers)
next
  fix content
  assume "result = Inr (Some content) \<and> content \<noteq> []"
  then show "\<exists>out. searchAndFill JSON_parse result original = Inr out"
    by (simp add: searchAndFill_returns)
qed

theorem searchAndFill_headers_witness:
  \<open>searchAndFill
     (JSON_parse_only (js ''{"tableData":{"headers":["X","Y","Z"],"rows":[["k1","v"]]}}'')
        \<lparr> SearchAndFillResponse.tableData =
            \<lparr> headers = [js ''X'', js ''Y'', js ''Z''], rows = [[js ''k1'', js ''v'']] \<rparr>,
          searchSummary = None \<rparr>)
     (Inr (Some (js ''{"tableData":{"headers":["X","Y","Z"],"rows":[["k1","v"]]}}'')))
     \<lparr> headers = [js ''A'', js ''B''], rows = [[js ''k1'', js ''old'']] \<rparr>
   = Inr \<lparr> SearchAndFillResponse.tableData =
            \<lparr> headers = [js ''A'', js ''B''], rows = [[js ''k1'', js ''v'']] \<rparr>,
          searchSummary = None \<rparr> \<and>
   headers (SearchAndFillResponse.tableData
      \<lparr> SearchAndFillResponse.tableData =
          \<lparr> headers = [js ''A'', js ''B''], rows = [[js ''k1'', js ''v'']] \<rparr>,
        searchSummary = None \<rparr>)
   = headers \<lparr> headers = [js ''A'', js ''B''], rows = [[js ''k1'', js ''old'']] \<rparr> \<and>
   js ''{"tableData":{"headers":["X","Y","Z"],"rows":[["k1","v"]]}}'' \<noteq> []\<close>
proof -
  let ?payload = \<open>js ''{"tableData":{"headers":["X","Y","Z"],"rows":[["k1","v"]]}}''\<close>
  let ?parsed = "\<lparr> SearchAndFillResponse.tableData =
            \<lparr> headers = [js ''X'', js ''Y'', js ''Z''], rows = [[js ''k1'', js ''v'']] \<rparr>,
          searchSummary = None \<rparr>"
  let ?original = "\<lparr> headers = [js ''A'', js ''B''], rows = [[js ''k1'', js ''old'']] \<rparr>"
  let ?out = "\<lparr> SearchAndFillResponse.tableData =
            \<lparr> headers = [js ''A'', js ''B''], rows = [[js ''k1'', js ''v'']] \<rparr>,
          searchSummary = None \<rparr>"
  have run: "searchAndFill (JSON_parse_only ?payload ?parsed) (Inr (Some ?payload)) ?original
      = Inr ?out"
    by code_simp
  have ne: "?payload \<noteq> []"
    by code_simp
  from searchAndFill_headers [of "JSON_parse_only ?payload ?parsed" "Inr (Some ?payload)" ?original]
    run
  have "headers (SearchAndFillResponse.tableData ?out) = headers ?original"
    by blast
  with run ne show ?thesis by (simp only: simp_thms)
qed

text \<open>
  C5. Whatever \<open>searchAndFill\<close> returns has as many rows as the original table, on the
  reconciled path and on the path of a failed parse; and it does return whenever the
  model gave a non-empty answer.
\<close>

theorem searchAndFill_row_count:
  "(\<forall>out. searchAndFill JSON_parse result original = Inr out \<longrightarrow>
       length (rows (SearchAndFillResponse.tableData out)) = length (rows original)) \<and>
   (\<forall>content. result = Inr (Some content) \<and> content \<noteq> [] \<longrightarrow>
       (\<exists>out. searchAndFill JSON_parse result original = Inr out))"
proof (intro conjI allI impI)
  fix out
  assume "searchAndFill JSON_parse result original = Inr out"
  then show "length (rows (SearchAndFillResponse.tableData out)) = length (rows original)"
    by (rule searchAndFill_cases) (simp_all add: searchAndFill_enforce_length)
next
  fix content
  assume "result = Inr (Some content) \<and> content \<noteq> []"
  then show "\<exists>out. searchAndFill JSON_parse result original = Inr out"
    by (simp add: searchAndFill_returns)
qed

theorem searchAndFill_row_count_witness:
  \<open>searchAndFill
     (JSON_parse_only (js ''{"tableData":{"headers":["K","V"],"rows":[["k2","Y2"],["k1","X2"],["k3","Z2"]]}}'')
        \<lparr> SearchAndFillResponse.tableData =
            \<lparr> headers = [js ''K'', js ''V''],
              rows = [[js ''k2'', js ''Y2''], [js ''k1'', js ''X2''], [js ''k3'', js ''Z2'']] \<rparr>,
          searchSummary = None \<rparr>)
     (Inr (Some (js ''{"tableData":{"headers":["K","V"],"rows":[["k2","Y2"],["k1","X2"],["k3","Z2"]]}}'')))
     \<lparr> headers = [js ''K'', js ''V''], rows = [[js ''k1'', js ''x''], [js ''k2'', js ''y'']] \<rparr>
   = Inr \<lparr> SearchAndFillResponse.tableData =
            \<lparr> headers = [js ''K'', js ''V''],
              rows = [[js ''k1'', js ''X2''], [js ''k2'', js ''Y2'']] \<rparr>,
          searchSummary = None \<rparr> \<and>
   length (rows (SearchAndFillResponse.tableData
      \<lparr> SearchAndFillResponse.tableData =
          \<lparr> headers = [js ''K'', js ''V''],
            rows = [[js ''k1'', js ''X2''], [js ''k2'', js ''Y2'']] \<rparr>,
        searchSummary = None \<rparr>))
   = length (rows \<lparr> headers = [js ''K'', js ''V''],
                     rows = [[js ''k1'', js ''x''], [js ''k2'', js ''y'']] \<rparr>)\<close>
proof -
  let ?payload = \<open>js ''{"tableData":{"headers":["K","V"],"rows":[["k2","Y2"],["k1","X2"],["k3","Z2"]]}}''\<close>
  let ?parsed = "\<lparr> SearchAndFillResponse.tableData =
            \<lparr> headers = [js ''K'', js ''V''],
              rows = [[js ''k2'', js ''Y2''], [js ''k1'', js ''X2''], [js ''k3'', js ''Z2'']] \<rparr>,
          searchSummary = None \<rparr>"
  let ?original = "\<lparr> headers = [js ''K'', js ''V''],
    rows = [[js ''k1'', js ''x''], [js ''k2'', js ''y'']] \<rparr>"
  let ?out = "\<lparr> SearchAndFillResponse.tableData =
            \<lparr> headers = [js ''K'', js ''V''],
              rows = [[js ''k1'', js ''X2''], [js ''k2'', js ''Y2'']] \<rparr>,
          searchSummary = None \<rparr>"
  have run: "searchAndFill (JSON_parse_only ?payload ?parsed) (Inr (Some ?payload)) ?original
      = Inr ?out"
    by code_simp
  from searchAndFill_row_count
         [of "JSON_parse_only ?payload ?parsed" "Inr (Some ?payload)" ?original] run
  have "length (rows (SearchAndFillResponse.tableData ?out)) = length (rows ?original)"
    by blast
  with run show ?thesis by (simp only: simp_thms)
qed

section \<open>Failure paths\<close>

text \<open>
  C2 as the claim states it fails: the call of the model is made before the \<open>try\<close> block,
  so when it fails \<open>searchAndFill\<close> raises the error to its caller and returns no table.
\<close>

theorem searchAndFill_gateway_failure_raises:
  "searchAndFill (JSON_parse_only (js ''{}'') \<lparr> SearchAndFillResponse.tableData = \<lparr> headers = [], rows = [] \<rparr>, searchSummary = None \<rparr>)
     (Inl LLMInvokeFailed)
     \<lparr> headers = [js ''A''], rows = [[js ''1'']] \<rparr>
   = Inl LLMInvokeFailed"
  by (simp add: searchAndFill_def responseContent_def)

text \<open>
  C2 (amended). For \<open>searchAndFill\<close> and \<open>modifyTable\<close>: whenever the model's answer cannot be
  extracted and parsed as JSON, the operation does not raise; it returns the original
  table unchanged together with the fixed failure text. A failure of the model call
  itself, and a missing or empty answer, are raised to the caller.
\<close>

theorem parse_failure_returns_original:
  "(content_s \<noteq> [] \<and> parseJsonResponse JSON_parse_s content_s = None \<longrightarrow>
      searchAndFill JSON_parse_s (Inr (Some content_s)) original =
        Inr \<lparr> SearchAndFillResponse.tableData = original,
              searchSummary = Some processing_failed \<rparr>) \<and>
   (content_m \<noteq> [] \<and> parseJsonResponse JSON_parse_m content_m = None \<longrightarrow>
      modifyTable JSON_parse_m (Inr (Some content_m)) original =
        Inr \<lparr> ModifyTableResponse.tableData = original,
              explanation = Some processing_failed \<rparr>) \<and>
   processing_failed = [0x5904, 0x7406, 0x5931, 0x8D25, 0xFF0C, 0x8BF7, 0x91CD, 0x8BD5] \<and>
   searchAndFill JSON_parse_s (Inl e) original = Inl e \<and>
   modifyTable JSON_parse_m (Inl e) original = Inl e \<and>
   searchAndFill JSON_parse_s (Inr None) original = Inl FailedToGetResponse \<and>
   modifyTable JSON_parse_m (Inr None) original = Inl FailedToGetResponse \<and>
   searchAndFill JSON_parse_s (Inr (Some [])) original = Inl FailedToGetResponse \<and>
   modifyTable JSON_parse_m (Inr (Some [])) original = Inl FailedToGetResponse"
  by (simp add: searchAndFill_unparsed modifyTable_unparsed processing_failed_def)
     (simp add: searchAndFill_def modifyTable_def responseContent_def)

theorem parse_failure_returns_original_witness:
  \<open>js ''Sorry, I cannot help.'' \<noteq> [] \<and>
   parseJsonResponse
     (JSON_parse_only (js ''{"tableData":{"headers":["A"],"rows":[["2"]]}}'')
        \<lparr> SearchAndFillResponse.tableData = \<lparr> headers = [js ''A''], rows = [[js ''2'']] \<rparr>,
          searchSummary = None \<rparr>)
     (js ''Sorry, I cannot help.'') = None \<and>
   searchAndFill
     (JSON_parse_only (js ''{"tableData":{"headers":["A"],"rows":[["2"]]}}'')
        \<lparr> SearchAndFillResponse.tableData = \<lparr> headers = [js ''A''], rows = [[js ''2'']] \<rparr>,
          searchSummary = None \<rparr>)
     (Inr (Some (js ''Sorry, I cannot help.'')))
     \<lparr> headers = [js ''A'', js ''B''], rows = [[js ''1'']] \<rparr>
   = Inr \<lparr> SearchAndFillResponse.tableData =
            \<lparr> headers = [js ''A'', js ''B''], rows = [[js ''1'']] \<rparr>,
          searchSummary = Some processing_failed \<rparr> \<and>
   parseJsonResponse
     (JSON_parse_only (js ''{"tableData":{"headers":["A"],"rows":[["2"]]}}'')
        \<lparr> ModifyTableResponse.tableData = \<lparr> headers = [js ''A''], rows = [[js ''2'']] \<rparr>,
          explanation = None \<rparr>)
     (js ''Sorry, I cannot help.'') = None \<and>
   modifyTable
     (JSON_parse_only (js ''{"tableData":{"headers":["A"],"rows":[["2"]]}}'')
        \<lparr> ModifyTableResponse.tableData = \<lparr> headers = [js ''A''], rows = [[js ''2'']] \<rparr>,
          explanation = None \<rparr>)
     (Inr (Some (js ''Sorry, I cannot help.'')))
     \<lparr> headers = [js ''A'', js ''B''], rows = [[js ''1'']] \<rparr>
   = Inr \<lparr> ModifyTableResponse.tableData =
            \<lparr> headers = [js ''A'', js ''B''], rows = [[js ''1'']] \<rparr>,
          explanation = Some processing_failed \<rparr>\<close>
proof -
  let ?content = "js ''Sorry, I cannot help.''"
  let ?payload = \<open>js ''{"tableData":{"headers":["A"],"rows":[["2"]]}}''\<close>
  let ?ps = "\<lparr> SearchAndFillResponse.tableData = \<lparr> headers = [js ''A''], rows = [[js ''2'']] \<rparr>,
          searchSummary = None \<rparr>"
  let ?pm = "\<lparr> ModifyTableResponse.tableData = \<lparr> headers = [js ''A''], rows = [[js ''2'']] \<rparr>,
          explanation = None \<rparr>"
  let ?original = "\<lparr> headers = [js ''A'', js ''B''], rows = [[js ''1'']] \<rparr>"
  have ne: "?content \<noteq> []"
    by code_simp
  have fs: "parseJsonResponse (JSON_parse_only ?payload ?ps) ?content = None"
    by code_simp
  have fm: "parseJsonResponse (JSON_parse_only ?payload ?pm) ?content = None"
    by code_simp
  from parse_failure_returns_original
         [of ?content "JSON_parse_only ?payload ?ps" ?original
             ?content "JSON_parse_only ?payload ?pm"]
       ne fs fm
  show ?thesis by blast
qed

text \<open>
  C3 as the claim states it fails: the call of the model is made before the \<open>try\<close> block,
  so when it fails \<open>recognizeFromImage\<close> raises the error and returns no fallback table.
\<close>

theorem recognizeFromImage_gateway_failure_raises:
  "recognizeFromImage
     (JSON_parse_only (js ''{}'')
        \<lparr> RecognizeTableResponse.tableData = \<lparr> headers = [], rows = [] \<rparr>, title = None \<rparr>)
     (Inl LLMInvokeFailed)
   = Inl LLMInvokeFailed"
  by (simp add: recognizeFromImage_def responseContent_def)

text \<open>
  C3 (amended). For \<open>recognizeFromImage\<close>: whenever the model's answer cannot be extracted
  and parsed as JSON, the operation does not raise; it returns the fixed fallback table
  (three headers, one row whose first cell is the fixed text and whose other two cells
  are empty) together with the fixed title. A failure of the model call itself, and a
  missing or empty answer, are raised to the caller.
\<close>

theorem recognizeFromImage_fallback:
  "(content \<noteq> [] \<and> parseJsonResponse JSON_parse content = None \<longrightarrow>
      recognizeFromImage JSON_parse (Inr (Some content)) =
        Inr \<lparr> RecognizeTableResponse.tableData =
                \<lparr> headers = [[0x5217, 0x31], [0x5217, 0x32], [0x5217, 0x33]],
                  rows = [[[0x65E0, 0x6CD5, 0x8BC6, 0x522B], [], []]] \<rparr>,
              title = Some [0x8BC6, 0x522B, 0x7684, 0x8868, 0x683C] \<rparr>) \<and>
   recognizeFromImage JSON_parse (Inl e) = Inl e \<and>
   recognizeFromImage JSON_parse (Inr None) = Inl FailedToGetResponse \<and>
   recognizeFromImage JSON_parse (Inr (Some [])) = Inl FailedToGetResponse"
  by (simp add: recognizeFromImage_unparsed fallback_table_def fallback_title_def)
     (simp add: recognizeFromImage_def responseContent_def)

theorem recognizeFromImage_fallback_witness:
  \<open>js ''I see no table in this picture.'' \<noteq> [] \<and>
   parseJsonResponse
     (JSON_parse_only (js ''{"tableData":{"headers":["A"],"rows":[["2"]]}}'')
        \<lparr> RecognizeTableResponse.tableData = \<lparr> headers = [js ''A''], rows = [[js ''2'']] \<rparr>,
          title = None \<rparr>)
     (js ''I see no table in this picture.'') = None \<and>
   recognizeFromImage
     (JSON_parse_only (js ''{"tableData":{"headers":["A"],"rows":[["2"]]}}'')
        \<lparr> RecognizeTableResponse.tableData = \<lparr> headers = [js ''A''], rows = [[js ''2'']] \<rparr>,
          title = None \<rparr>)
     (Inr (Some (js ''I see no table in this picture.'')))
   = Inr \<lparr> RecognizeTableResponse.tableData =
            \<lparr> headers = [[0x5217, 0x31], [0x5217, 0x32], [0x5217, 0x33]],
              rows = [[[0x65E0, 0x6CD5, 0x8BC6, 0x522B], [], []]] \<rparr>,
          title = Some [0x8BC6, 0x522B, 0x7684, 0x8868, 0x683C] \<rparr>\<close>
proof -
  let ?content = "js ''I see no table in this picture.''"
  let ?payload = \<open>js ''{"tableData":{"headers":["A"],"rows":[["2"]]}}''\<close>
  let ?parsed = "\<lparr> RecognizeTableResponse.tableData =
      \<lparr> headers = [js ''A''], rows = [[js ''2'']] \<rparr>, title = None \<rparr>"
  have ne: "?content \<noteq> []"
    by code_simp
  have failed: "parseJsonResponse (JSON_parse_only ?payload ?parsed) ?content = None"
    by code_simp
  from recognizeFromImage_fallback [of ?content "JSON_parse_only ?payload ?parsed"] ne failed
  show ?thesis by blast
qed

section \<open>The column-count invariant\<close>

text \<open>
  C1 as the claim states it fails for \<open>recognizeFromImage\<close>: a parsed table is returned as
  the model gave it. Here the answer has two headers and a row of one cell, and that is
  what comes back.
\<close>

theorem recognizeFromImage_keeps_jagged_rows:
  \<open>recognizeFromImage
     (JSON_parse_only (js ''{"tableData":{"headers":["A","B"],"rows":[["1"]]}}'')
        \<lparr> RecognizeTableResponse.tableData =
            \<lparr> headers = [js ''A'', js ''B''], rows = [[js ''1'']] \<rparr>,
          title = None \<rparr>)
     (Inr (Some (js ''{"tableData":{"headers":["A","B"],"rows":[["1"]]}}'')))
   = Inr \<lparr> RecognizeTableResponse.tableData =
            \<lparr> headers = [js ''A'', js ''B''], rows = [[js ''1'']] \<rparr>,
          title = None \<rparr> \<and>
   length [js ''1''] \<noteq> length [js ''A'', js ''B'']\<close>
  by code_simp

text \<open>
  C1 (amended). For \<open>searchAndFill\<close> and \<open>modifyTable\<close>, whenever the model's answer parses to
  a candidate table, every row of the returned table has exactly as many cells as the
  returned table has headers, for every original table and every candidate.
  \<open>recognizeFromImage\<close> returns the parsed table as it is.
\<close>

theorem column_count_after_parse:
  "(content_s \<noteq> [] \<and> parseJsonResponse JSON_parse_s content_s = Some parsed_s \<longrightarrow>
      (\<exists>out. searchAndFill JSON_parse_s (Inr (Some content_s)) original = Inr out \<and>
         (\<forall>r \<in> set (rows (SearchAndFillResponse.tableData out)).
            length r = length (headers (SearchAndFillResponse.tableData out))))) \<and>
   (content_m \<noteq> [] \<and> parseJsonResponse JSON_parse_m content_m = Some parsed_m \<longrightarrow>
      (\<exists>out. modifyTable JSON_parse_m (Inr (Some content_m)) original = Inr out \<and>
         (\<forall>r \<in> set (rows (ModifyTableResponse.tableData out)).
            length r = length (headers (ModifyTableResponse.tableData out))))) \<and>
   (content_r \<noteq> [] \<and> parseJsonResponse JSON_parse_r content_r = Some parsed_r \<longrightarrow>
      recognizeFromImage JSON_parse_r (Inr (Some content_r)) =
        Inr \<lparr> RecognizeTableResponse.tableData = RecognizeTableResponse.tableData parsed_r,
              title = title parsed_r \<rparr>)"
proof (intro conjI impI)
  assume "content_s \<noteq> [] \<and> parseJsonResponse JSON_parse_s content_s = Some parsed_s"
  then have "searchAndFill JSON_parse_s (Inr (Some content_s)) original =
      Inr (searchAndFill_enforce original parsed_s)"
    by (simp add: searchAndFill_parsed)
  then show "\<exists>out. searchAndFill JSON_parse_s (Inr (Some content_s)) original = Inr out \<and>
      (\<forall>r \<in> set (rows (SearchAndFillResponse.tableData out)).
         length r = length (headers (SearchAndFillResponse.tableData out)))"
    by (simp add: searchAndFill_enforce_columns searchAndFill_enforce_headers)
next
  assume "content_m \<noteq> [] \<and> parseJsonResponse JSON_parse_m content_m = Some parsed_m"
  then have "modifyTable JSON_parse_m (Inr (Some content_m)) original =
      Inr (modifyTable_enforce original parsed_m)"
    by (simp add: modifyTable_parsed)
  then show "\<exists>out. modifyTable JSON_parse_m (Inr (Some content_m)) original = Inr out \<and>
      (\<forall>r \<in> set (rows (ModifyTableResponse.tableData out)).
         length r = length (headers (ModifyTableResponse.tableData out)))"
    by (simp add: modifyTable_enforce_columns modifyTable_enforce_headers)
next
  assume "content_r \<noteq> [] \<and> parseJsonResponse JSON_parse_r content_r = Some parsed_r"
  then show "recognizeFromImage JSON_parse_r (Inr (Some content_r)) =
      Inr \<lparr> RecognizeTableResponse.tableData = RecognizeTableResponse.tableData parsed_r,
            title = title parsed_r \<rparr>"
    by (simp add: recognizeFromImage_parsed)
qed

theorem column_count_after_parse_witness:
  \<open>searchAndFill
     (JSON_parse_only (js ''{"tableData":{"headers":["A"],"rows":[["k","v","w"],[]]}}'')
        \<lparr> SearchAndFillResponse.tableData =
            \<lparr> headers = [js ''A''], rows = [[js ''k'', js ''v'', js ''w''], []] \<rparr>,
          searchSummary = None \<rparr>)
     (Inr (Some (js ''{"tableData":{"headers":["A"],"rows":[["k","v","w"],[]]}}'')))
     \<lparr> headers = [js ''A'', js ''B''], rows = [[js ''k''], [js ''p'', js ''q'', js ''r'']] \<rparr>
   = Inr \<lparr> SearchAndFillResponse.tableData =
            \<lparr> headers = [js ''A'', js ''B''], rows = [[js ''k'', js ''v''], [js ''p'', js ''q'']] \<rparr>,
          searchSummary = None \<rparr> \<and>
   modifyTable
     (JSON_parse_only (js ''{"tableData":{"headers":["A"],"rows":[["k","v","w"],[]]}}'')
        \<lparr> ModifyTableResponse.tableData =
            \<lparr> headers = [js ''A''], rows = [[js ''k'', js ''v'', js ''w''], []] \<rparr>,
          explanation = None \<rparr>)
     (Inr (Some (js ''{"tableData":{"headers":["A"],"rows":[["k","v","w"],[]]}}'')))
     \<lparr> headers = [js ''A'', js ''B''], rows = [[js ''k''], [js ''p'', js ''q'', js ''r'']] \<rparr>
   = Inr \<lparr> ModifyTableResponse.tableData =
            \<lparr> headers = [js ''A''], rows = [[js ''k''], [js ''p'']] \<rparr>,
          explanation = None \<rparr> \<and>
   recognizeFromImage
     (JSON_parse_only (js ''{"tableData":{"headers":["A"],"rows":[["k","v","w"],[]]}}'')
        \<lparr> RecognizeTableResponse.tableData =
            \<lparr> headers = [js ''A''], rows = [[js ''k'', js ''v'', js ''w''], []] \<rparr>,
          title = None \<rparr>)
     (Inr (Some (js ''{"tableData":{"headers":["A"],"rows":[["k","v","w"],[]]}}'')))
   = Inr \<lparr> RecognizeTableResponse.tableData =
            \<lparr> headers = [js ''A''], rows = [[js ''k'', js ''v'', js ''w''], []] \<rparr>,
          title = None \<rparr> \<and>
   length [js ''k'', js ''v''] = length [js ''A'', js ''B''] \<and>
   length [js ''p'', js ''q''] = length [js ''A'', js ''B'']\<close>
proof -
  let ?payload = \<open>js ''{"tableData":{"headers":["A"],"rows":[["k","v","w"],[]]}}''\<close>
  let ?table = "\<lparr> headers = [js ''A''], rows = [[js ''k'', js ''v'', js ''w''], []] \<rparr>"
  let ?ps = "\<lparr> SearchAndFillResponse.tableData = ?table, searchSummary = None \<rparr>"
  let ?pm = "\<lparr> ModifyTableResponse.tableData = ?table, explanation = None \<rparr>"
  let ?pr = "\<lparr> RecognizeTableResponse.tableData = ?table, title = None \<rparr>"
  let ?original = "\<lparr> headers = [js ''A'', js ''B''],
    rows = [[js ''k''], [js ''p'', js ''q'', js ''r'']] \<rparr>"
  let ?out_s = "\<lparr> SearchAndFillResponse.tableData =
      \<lparr> headers = [js ''A'', js ''B''], rows = [[js ''k'', js ''v''], [js ''p'', js ''q'']] \<rparr>,
      searchSummary = None \<rparr>"
  let ?out_m = "\<lparr> ModifyTableResponse.tableData =
      \<lparr> headers = [js ''A''], rows = [[js ''k''], [js ''p'']] \<rparr>, explanation = None \<rparr>"
  have ne: "?payload \<noteq> []"
    by code_simp
  have s: "parseJsonResponse (JSON_parse_only ?payload ?ps) ?payload = Some ?ps"
    by code_simp
  have m: "parseJsonResponse (JSON_parse_only ?payload ?pm) ?payload = Some ?pm"
    by code_simp
  have r: "parseJsonResponse (JSON_parse_only ?payload ?pr) ?payload = Some ?pr"
    by code_simp
  have run_s: "searchAndFill (JSON_parse_only ?payload ?ps) (Inr (Some ?payload)) ?original
      = Inr ?out_s"
    by code_simp
  have run_m: "modifyTable (JSON_parse_only ?payload ?pm) (Inr (Some ?payload)) ?original
      = Inr ?out_m"
    by code_simp
  note all = column_count_after_parse
      [of ?payload "JSON_parse_only ?payload ?ps" ?ps ?original
          ?payload "JSON_parse_only ?payload ?pm" ?pm
          ?payload "JSON_parse_only ?payload ?pr" ?pr]
  from all ne s run_s
  have "\<forall>r \<in> set (rows (SearchAndFillResponse.tableData ?out_s)).
      length r = length (headers (SearchAndFillResponse.tableData ?out_s))"
    by (metis sum.inject(2))
  then have cols: "length [js ''k'', js ''v''] = length [js ''A'', js ''B''] \<and>
      length [js ''p'', js ''q''] = length [js ''A'', js ''B'']"
    by simp
  from all ne r
  have "recognizeFromImage (JSON_parse_only ?payload ?pr) (Inr (Some ?payload)) = Inr ?pr"
    by simp
  with run_s run_m cols show ?thesis by (simp only: simp_thms)
qed

section \<open>Normalisation in modifyTable\<close>

text \<open>
  C8. On the success path of \<open>modifyTable\<close> the output has the candidate's headers and the
  candidate's number of rows, and each output row is the candidate row normalised to the
  candidate's header count: the cells the candidate row has are kept, a missing cell is
  taken from the original row at the same index where that row and that cell exist and is
  the empty string otherwise, and a longer row is cut to its first header-count cells.
\<close>

theorem modifyTable_normalises_rows:
  "content \<noteq> [] \<and> parseJsonResponse JSON_parse content = Some parsed \<longrightarrow>
     (\<exists>out. modifyTable JSON_parse (Inr (Some content)) original = Inr out \<and>
        headers (ModifyTableResponse.tableData out) =
          headers (ModifyTableResponse.tableData parsed) \<and>
        length (rows (ModifyTableResponse.tableData out)) =
          length (rows (ModifyTableResponse.tableData parsed)) \<and>
        (\<forall>idx < length (rows (ModifyTableResponse.tableData parsed)).
           length (rows (ModifyTableResponse.tableData out) ! idx) =
             length (headers (ModifyTableResponse.tableData parsed)) \<and>
           (length (headers (ModifyTableResponse.tableData parsed))
              \<le> length (rows (ModifyTableResponse.tableData parsed) ! idx) \<longrightarrow>
            rows (ModifyTableResponse.tableData out) ! idx =
              take (length (headers (ModifyTableResponse.tableData parsed)))
                (rows (ModifyTableResponse.tableData parsed) ! idx)) \<and>
           (\<forall>col < length (headers (ModifyTableResponse.tableData parsed)).
              rows (ModifyTableResponse.tableData out) ! idx ! col =
                (if col < length (rows (ModifyTableResponse.tableData parsed) ! idx)
                 then rows (ModifyTableResponse.tableData parsed) ! idx ! col
                 else if idx < length (rows original) \<and> col < length (rows original ! idx)
                 then rows original ! idx ! col
                 else []))))"
proof
  let ?cand = "ModifyTableResponse.tableData parsed"
  let ?out = "modifyTable_enforce original parsed"
  assume "content \<noteq> [] \<and> parseJsonResponse JSON_parse content = Some parsed"
  then have run: "modifyTable JSON_parse (Inr (Some content)) original = Inr ?out"
    by (simp add: modifyTable_parsed)
  have row: "length (rows (ModifyTableResponse.tableData ?out) ! idx) = length (headers ?cand) \<and>
      (length (headers ?cand) \<le> length (rows ?cand ! idx) \<longrightarrow>
         rows (ModifyTableResponse.tableData ?out) ! idx =
           take (length (headers ?cand)) (rows ?cand ! idx)) \<and>
      (\<forall>col < length (headers ?cand).
         rows (ModifyTableResponse.tableData ?out) ! idx ! col =
           (if col < length (rows ?cand ! idx) then rows ?cand ! idx ! col
            else if idx < length (rows original) \<and> col < length (rows original ! idx)
            then rows original ! idx ! col
            else []))"
    if "idx < length (rows ?cand)" for idx
  proof (intro conjI allI impI)
    show "length (rows (ModifyTableResponse.tableData ?out) ! idx) = length (headers ?cand)"
      using that by (simp add: modifyTable_enforce_row length_ensure_columns)
    show "rows (ModifyTableResponse.tableData ?out) ! idx =
        take (length (headers ?cand)) (rows ?cand ! idx)"
      if "length (headers ?cand) \<le> length (rows ?cand ! idx)"
      using that \<open>idx < length (rows ?cand)\<close>
      by (simp add: modifyTable_enforce_row ensure_columns_eq)
    show "rows (ModifyTableResponse.tableData ?out) ! idx ! col =
        (if col < length (rows ?cand ! idx) then rows ?cand ! idx ! col
         else if idx < length (rows original) \<and> col < length (rows original ! idx)
         then rows original ! idx ! col
         else [])"
      if "col < length (headers ?cand)" for col
      using that \<open>idx < length (rows ?cand)\<close>
      by (simp add: modifyTable_enforce_row nth_ensure_columns cell_def)
  qed
  show "\<exists>out. modifyTable JSON_parse (Inr (Some content)) original = Inr out \<and>
        headers (ModifyTableResponse.tableData out) = headers ?cand \<and>
        length (rows (ModifyTableResponse.tableData out)) = length (rows ?cand) \<and>
        (\<forall>idx < length (rows ?cand).
           length (rows (ModifyTableResponse.tableData out) ! idx) = length (headers ?cand) \<and>
           (length (headers ?cand) \<le> length (rows ?cand ! idx) \<longrightarrow>
            rows (ModifyTableResponse.tableData out) ! idx =
              take (length (headers ?cand)) (rows ?cand ! idx)) \<and>
           (\<forall>col < length (headers ?cand).
              rows (ModifyTableResponse.tableData out) ! idx ! col =
                (if col < length (rows ?cand ! idx) then rows ?cand ! idx ! col
                 else if idx < length (rows original) \<and> col < length (rows original ! idx)
                 then rows original ! idx ! col
                 else [])))"
    using run row
    by (intro exI [of _ ?out] conjI)
       (simp_all add: modifyTable_enforce_headers modifyTable_enforce_length)
qed

theorem modifyTable_normalises_rows_witness:
  \<open>js ''{"tableData":{"headers":["A","B","C"],"rows":[["k1","new2"],["k2","x","y","z"]]}}'' \<noteq> [] \<and>
   parseJsonResponse
     (JSON_parse_only
        (js ''{"tableData":{"headers":["A","B","C"],"rows":[["k1","new2"],["k2","x","y","z"]]}}'')
        \<lparr> ModifyTableResponse.tableData =
            \<lparr> headers = [js ''A'', js ''B'', js ''C''],
              rows = [[js ''k1'', js ''new2''], [js ''k2'', js ''x'', js ''y'', js ''z'']] \<rparr>,
          explanation = None \<rparr>)
     (js ''{"tableData":{"headers":["A","B","C"],"rows":[["k1","new2"],["k2","x","y","z"]]}}'')
   = Some \<lparr> ModifyTableResponse.tableData =
            \<lparr> headers = [js ''A'', js ''B'', js ''C''],
              rows = [[js ''k1'', js ''new2''], [js ''k2'', js ''x'', js ''y'', js ''z'']] \<rparr>,
          explanation = None \<rparr> \<and>
   modifyTable
     (JSON_parse_only
        (js ''{"tableData":{"headers":["A","B","C"],"rows":[["k1","new2"],["k2","x","y","z"]]}}'')
        \<lparr> ModifyTableResponse.tableData =
            \<lparr> headers = [js ''A'', js ''B'', js ''C''],
              rows = [[js ''k1'', js ''new2''], [js ''k2'', js ''x'', js ''y'', js ''z'']] \<rparr>,
          explanation = None \<rparr>)
     (Inr (Some
        (js ''{"tableData":{"headers":["A","B","C"],"rows":[["k1","new2"],["k2","x","y","z"]]}}'')))
     \<lparr> headers = [js ''A'', js ''B'', js ''C''],
       rows = [[js ''k1'', js ''old2'', js ''old3'']] \<rparr>
   = Inr \<lparr> ModifyTableResponse.tableData =
            \<lparr> headers = [js ''A'', js ''B'', js ''C''],
              rows = [[js ''k1'', js ''new2'', js ''old3''], [js ''k2'', js ''x'', js ''y'']] \<rparr>,
          explanation = None \<rparr> \<and>
   length [[js ''k1'', js ''new2'', js ''old3''], [js ''k2'', js ''x'', js ''y'']] =
     length [[js ''k1'', js ''new2''], [js ''k2'', js ''x'', js ''y'', js ''z'']]\<close>
proof -
  let ?payload = \<open>js ''{"tableData":{"headers":["A","B","C"],"rows":[["k1","new2"],["k2","x","y","z"]]}}''\<close>
  let ?parsed = "\<lparr> ModifyTableResponse.tableData =
            \<lparr> headers = [js ''A'', js ''B'', js ''C''],
              rows = [[js ''k1'', js ''new2''], [js ''k2'', js ''x'', js ''y'', js ''z'']] \<rparr>,
          explanation = None \<rparr>"
  let ?original = "\<lparr> headers = [js ''A'', js ''B'', js ''C''],
       rows = [[js ''k1'', js ''old2'', js ''old3'']] \<rparr>"
  let ?out = "\<lparr> ModifyTableResponse.tableData =
            \<lparr> headers = [js ''A'', js ''B'', js ''C''],
              rows = [[js ''k1'', js ''new2'', js ''old3''], [js ''k2'', js ''x'', js ''y'']] \<rparr>,
          explanation = None \<rparr>"
  have ne: "?payload \<noteq> []"
    by code_simp
  have parse: "parseJsonResponse (JSON_parse_only ?payload ?parsed) ?payload = Some ?parsed"
    by code_simp
  have run: "modifyTable (JSON_parse_only ?payload ?parsed) (Inr (Some ?payload)) ?original
      = Inr ?out"
    by code_simp
  from modifyTable_normalises_rows
         [of ?payload "JSON_parse_only ?payload ?parsed" ?parsed ?original] ne parse run
  have "length (rows (ModifyTableResponse.tableData ?out)) =
      length (rows (ModifyTableResponse.tableData ?parsed))"
    by (metis sum.inject(2))
  then have "length [[js ''k1'', js ''new2'', js ''old3''], [js ''k2'', js ''x'', js ''y'']] =
     length [[js ''k1'', js ''new2''], [js ''k2'', js ''x'', js ''y'', js ''z'']]"
    by simp
  with ne parse run show ?thesis by (simp only: simp_thms)
qed

section \<open>The two branches of searchAndFill\<close>

lemma enforce_row_same_count:
  assumes "length (rows (SearchAndFillResponse.tableData parsed)) = length (rows original)"
    and "i < length (rows original)"
  shows "rows (SearchAndFillResponse.tableData (searchAndFill_enforce original parsed)) ! i =
    map (fill_cell (length (headers original)) (rows original ! i)
          (rows (SearchAndFillResponse.tableData parsed) ! i))
      [0..<length (headers original)]"
  using assms
  by (simp add: searchAndFill_enforce_def Let_def nth_map_idx length_map_idx preserve_row_eq
      ensure_columns_exact)

lemma enforce_row_other_count:
  assumes "length (rows (SearchAndFillResponse.tableData parsed)) \<noteq> length (rows original)"
    and "i < length (rows original)"
  shows "rows (SearchAndFillResponse.tableData (searchAndFill_enforce original parsed)) ! i =
    ensure_columns (length (headers original)) (rows original)
      (match_row (length (headers original)) (rows (SearchAndFillResponse.tableData parsed))
         (rows original ! i)) i"
  using assms
  by (simp add: searchAndFill_enforce_def Let_def nth_map_idx)

lemma matched_row_nonempty:
  assumes "find (\<lambda>newRow. js_index newRow 0 = js_index originalRow 0) candidate_rows =
      Some matchedRow"
    and "originalRow \<noteq> []"
  shows "matchedRow \<noteq> []"
proof -
  from assms(1) have "js_index matchedRow 0 = js_index originalRow 0"
    by (auto simp: find_Some_iff)
  with assms(2) show ?thesis
    by (auto simp: js_index_def)
qed

lemma set_last_eq:
  "(result \<noteq> [] \<Longrightarrow> matchedRow \<noteq> []) \<Longrightarrow>
   set_last result matchedRow = result[length result - 1 := last matchedRow]"
  by (cases "result = []") (auto simp: set_last_def last_conv_nth)

lemma match_row_eq:
  "match_row n candidate_rows originalRow =
     (case find (\<lambda>newRow. js_index newRow 0 = js_index originalRow 0) candidate_rows of
        Some matchedRow \<Rightarrow>
          if n \<le> length matchedRow
          then originalRow[length originalRow - 1 := last matchedRow]
          else originalRow
      | None \<Rightarrow> originalRow)"
  by (auto simp: match_row_def Let_def set_last_eq matched_row_nonempty split: option.splits)

lemma length_match_row: "length (match_row n candidate_rows originalRow) = length originalRow"
  by (simp add: match_row_eq split: option.splits)

lemma cell_beyond: "length row \<le> col \<Longrightarrow> cell row col = []"
  by (simp add: cell_def)

lemma ensure_columns_fit:
  assumes "idx < length original_rows" and "length row = length (original_rows ! idx)"
  shows "ensure_columns n original_rows row idx = fit n row"
proof -
  have "map (cell (original_rows ! idx)) [length row..<n] = replicate (n - length row) []"
    using assms(2) by (intro replicate_eqI) (auto simp: cell_beyond)
  with assms(1) show ?thesis
    by (simp add: ensure_columns_eq fit_def)
qed

lemma fit_exact: "length row = n \<Longrightarrow> fit n row = row"
  by (simp add: fit_def)

lemma enforce_row_realigned:
  assumes "length (rows (SearchAndFillResponse.tableData parsed)) \<noteq> length (rows original)"
    and "i < length (rows original)"
  shows "rows (SearchAndFillResponse.tableData (searchAndFill_enforce original parsed)) ! i =
    fit (length (headers original))
      (case find (\<lambda>newRow. js_index newRow 0 = js_index (rows original ! i) 0)
              (rows (SearchAndFillResponse.tableData parsed)) of
         Some matchedRow \<Rightarrow>
           if length (headers original) \<le> length matchedRow
           then (rows original ! i)[length (rows original ! i) - 1 := last matchedRow]
           else rows original ! i
       | None \<Rightarrow> rows original ! i)"
proof -
  have "rows (SearchAndFillResponse.tableData (searchAndFill_enforce original parsed)) ! i =
      fit (length (headers original))
        (match_row (length (headers original)) (rows (SearchAndFillResponse.tableData parsed))
           (rows original ! i))"
    using assms by (simp add: enforce_row_other_count ensure_columns_fit length_match_row)
  then show ?thesis by (simp only: match_row_eq)
qed

lemma find_first_match:
  assumes "\<forall>r \<in> set earlier. \<not> P r" and "P matchedRow"
  shows "find P (earlier @ matchedRow # later) = Some matchedRow"
  using assms by (induction earlier) auto

section \<open>searchAndFill with the candidate's rows aligned by position\<close>

text \<open>
  C6 as the claim states it fails on a table of one column: that column is column 0 and
  the last column at once, and the source keeps the original value in column 0 before it
  looks at anything else. Here the candidate's last cell \<open>z\<close> is not empty, and the
  output's last cell is the original \<open>k\<close>.
\<close>

theorem searchAndFill_single_column_keeps_original:
  \<open>searchAndFill
     (JSON_parse_only (js ''{"tableData":{"headers":["A"],"rows":[["z"]]}}'')
        \<lparr> SearchAndFillResponse.tableData = \<lparr> headers = [js ''A''], rows = [[js ''z'']] \<rparr>,
          searchSummary = None \<rparr>)
     (Inr (Some (js ''{"tableData":{"headers":["A"],"rows":[["z"]]}}'')))
     \<lparr> headers = [js ''A''], rows = [[js ''k'']] \<rparr>
   = Inr \<lparr> SearchAndFillResponse.tableData = \<lparr> headers = [js ''A''], rows = [[js ''k'']] \<rparr>,
          searchSummary = None \<rparr> \<and>
   js ''z'' \<noteq> [] \<and> js ''k'' \<noteq> js ''z''\<close>
  by code_simp

text \<open>
  C6 (amended). For \<open>searchAndFill\<close>, when the candidate has as many rows as the original
  (rows aligned by position), every output row \<open>i\<close> has one cell per header and, reading a
  cell that a row does not have as the empty string:
  column 0 is the original's column 0 (so it equals \<open>original.rows[i][0]\<close> when the original
  row is not empty); every column strictly between the first and the last is the original
  value unless that is empty, and then the candidate's; and the last column, when the table
  has at least two columns, is the candidate's value unless that is empty, and then the
  original's.
\<close>

theorem searchAndFill_aligned_rows:
  "content \<noteq> [] \<and> parseJsonResponse JSON_parse content = Some parsed \<and>
   length (rows (SearchAndFillResponse.tableData parsed)) = length (rows original) \<and>
   i < length (rows original) \<longrightarrow>
     (\<exists>out. searchAndFill JSON_parse (Inr (Some content)) original = Inr out \<and>
        length (rows (SearchAndFillResponse.tableData out) ! i) = length (headers original) \<and>
        (0 < length (headers original) \<longrightarrow>
           rows (SearchAndFillResponse.tableData out) ! i ! 0 = cell (rows original ! i) 0) \<and>
        (0 < length (headers original) \<and> rows original ! i \<noteq> [] \<longrightarrow>
           rows (SearchAndFillResponse.tableData out) ! i ! 0 = rows original ! i ! 0) \<and>
        (\<forall>col. 0 < col \<and> col + 1 < length (headers original) \<longrightarrow>
           rows (SearchAndFillResponse.tableData out) ! i ! col =
             (if cell (rows original ! i) col \<noteq> [] then cell (rows original ! i) col
              else cell (rows (SearchAndFillResponse.tableData parsed) ! i) col)) \<and>
        (1 < length (headers original) \<longrightarrow>
           rows (SearchAndFillResponse.tableData out) ! i ! (length (headers original) - 1) =
             (if cell (rows (SearchAndFillResponse.tableData parsed) ! i)
                   (length (headers original) - 1) \<noteq> []
              then cell (rows (SearchAndFillResponse.tableData parsed) ! i)
                   (length (headers original) - 1)
              else cell (rows original ! i) (length (headers original) - 1))))"
proof
  let ?n = "length (headers original)"
  let ?o = "rows original ! i"
  let ?c = "rows (SearchAndFillResponse.tableData parsed) ! i"
  let ?out = "searchAndFill_enforce original parsed"
  assume h: "content \<noteq> [] \<and> parseJsonResponse JSON_parse content = Some parsed \<and>
    length (rows (SearchAndFillResponse.tableData parsed)) = length (rows original) \<and>
    i < length (rows original)"
  then have run: "searchAndFill JSON_parse (Inr (Some content)) original = Inr ?out"
    by (simp add: searchAndFill_parsed)
  from h have row: "rows (SearchAndFillResponse.tableData ?out) ! i =
      map (fill_cell ?n ?o ?c) [0..<?n]"
    by (simp add: enforce_row_same_count)
  have len: "length (rows (SearchAndFillResponse.tableData ?out) ! i) = ?n"
    by (simp add: row)
  have first: "rows (SearchAndFillResponse.tableData ?out) ! i ! 0 = cell ?o 0" if "0 < ?n"
    using that by (simp add: row fill_cell_def)
  have first': "rows (SearchAndFillResponse.tableData ?out) ! i ! 0 = ?o ! 0"
    if "0 < ?n \<and> ?o \<noteq> []"
    using that by (simp add: row fill_cell_def cell_def)
  have middle: "rows (SearchAndFillResponse.tableData ?out) ! i ! col =
      (if cell ?o col \<noteq> [] then cell ?o col else cell ?c col)"
    if "0 < col \<and> col + 1 < ?n" for col
    using that by (simp add: row fill_cell_def)
  have final: "rows (SearchAndFillResponse.tableData ?out) ! i ! (?n - 1) =
      (if cell ?c (?n - 1) \<noteq> [] then cell ?c (?n - 1) else cell ?o (?n - 1))"
    if "1 < ?n"
  proof -
    from that obtain k where k: "?n = Suc (Suc k)"
      by (auto simp: less_iff_Suc_add)
    have "map (fill_cell ?n ?o ?c) [0..<?n] ! (?n - 1) = fill_cell ?n ?o ?c (?n - 1)"
      using that by simp
    also have "\<dots> = (if cell ?c (?n - 1) \<noteq> [] then cell ?c (?n - 1) else cell ?o (?n - 1))"
      by (simp add: fill_cell_def k)
    finally show ?thesis by (simp only: row)
  qed
  show "\<exists>out. searchAndFill JSON_parse (Inr (Some content)) original = Inr out \<and>
      length (rows (SearchAndFillResponse.tableData out) ! i) = ?n \<and>
      (0 < ?n \<longrightarrow> rows (SearchAndFillResponse.tableData out) ! i ! 0 = cell ?o 0) \<and>
      (0 < ?n \<and> ?o \<noteq> [] \<longrightarrow> rows (SearchAndFillResponse.tableData out) ! i ! 0 = ?o ! 0) \<and>
      (\<forall>col. 0 < col \<and> col + 1 < ?n \<longrightarrow>
         rows (SearchAndFillResponse.tableData out) ! i ! col =
           (if cell ?o col \<noteq> [] then cell ?o col else cell ?c col)) \<and>
      (1 < ?n \<longrightarrow>
         rows (SearchAndFillResponse.tableData out) ! i ! (?n - 1) =
           (if cell ?c (?n - 1) \<noteq> [] then cell ?c (?n - 1) else cell ?o (?n - 1)))"
    using run len first first' middle final by blast
qed

theorem searchAndFill_aligned_rows_witness:
  \<open>js ''{"tableData":{"headers":["K","M","V"],"rows":[["x","m2","new"],["k2","m3",""]]}}'' \<noteq> [] \<and>
   parseJsonResponse
     (JSON_parse_only
        (js ''{"tableData":{"headers":["K","M","V"],"rows":[["x","m2","new"],["k2","m3",""]]}}'')
        \<lparr> SearchAndFillResponse.tableData =
            \<lparr> headers = [js ''K'', js ''M'', js ''V''],
              rows = [[js ''x'', js ''m2'', js ''new''], [js ''k2'', js ''m3'', []]] \<rparr>,
          searchSummary = None \<rparr>)
     (js ''{"tableData":{"headers":["K","M","V"],"rows":[["x","m2","new"],["k2","m3",""]]}}'')
   = Some \<lparr> SearchAndFillResponse.tableData =
            \<lparr> headers = [js ''K'', js ''M'', js ''V''],
              rows = [[js ''x'', js ''m2'', js ''new''], [js ''k2'', js ''m3'', []]] \<rparr>,
          searchSummary = None \<rparr> \<and>
   searchAndFill
     (JSON_parse_only
        (js ''{"tableData":{"headers":["K","M","V"],"rows":[["x","m2","new"],["k2","m3",""]]}}'')
        \<lparr> SearchAndFillResponse.tableData =
            \<lparr> headers = [js ''K'', js ''M'', js ''V''],
              rows = [[js ''x'', js ''m2'', js ''new''], [js ''k2'', js ''m3'', []]] \<rparr>,
          searchSummary = None \<rparr>)
     (Inr (Some
        (js ''{"tableData":{"headers":["K","M","V"],"rows":[["x","m2","new"],["k2","m3",""]]}}'')))
     \<lparr> headers = [js ''K'', js ''M'', js ''V''],
       rows = [[js ''k1'', js ''m1'', js ''old''], [js ''k2'', [], js ''old2'']] \<rparr>
   = Inr \<lparr> SearchAndFillResponse.tableData =
            \<lparr> headers = [js ''K'', js ''M'', js ''V''],
              rows = [[js ''k1'', js ''m1'', js ''new''], [js ''k2'', js ''m3'', js ''old2'']] \<rparr>,
          searchSummary = None \<rparr> \<and>
   [js ''k1'', js ''m1'', js ''new''] ! 0 = [js ''k1'', js ''m1'', js ''old''] ! 0\<close>
proof -
  let ?payload = \<open>js ''{"tableData":{"headers":["K","M","V"],"rows":[["x","m2","new"],["k2","m3",""]]}}''\<close>
  let ?parsed = "\<lparr> SearchAndFillResponse.tableData =
            \<lparr> headers = [js ''K'', js ''M'', js ''V''],
              rows = [[js ''x'', js ''m2'', js ''new''], [js ''k2'', js ''m3'', []]] \<rparr>,
          searchSummary = None \<rparr>"
  let ?original = "\<lparr> headers = [js ''K'', js ''M'', js ''V''],
       rows = [[js ''k1'', js ''m1'', js ''old''], [js ''k2'', [], js ''old2'']] \<rparr>"
  let ?out = "\<lparr> SearchAndFillResponse.tableData =
            \<lparr> headers = [js ''K'', js ''M'', js ''V''],
              rows = [[js ''k1'', js ''m1'', js ''new''], [js ''k2'', js ''m3'', js ''old2'']] \<rparr>,
          searchSummary = None \<rparr>"
  have ne: "?payload \<noteq> []"
    by code_simp
  have parse: "parseJsonResponse (JSON_parse_only ?payload ?parsed) ?payload = Some ?parsed"
    by code_simp
  have run: "searchAndFill (JSON_parse_only ?payload ?parsed) (Inr (Some ?payload)) ?original
      = Inr ?out"
    by code_simp
  have aligned: "length (rows (SearchAndFillResponse.tableData ?parsed)) = length (rows ?original)"
    and i: "0 < length (rows ?original)"
    and n: "0 < length (headers ?original) \<and> rows ?original ! 0 \<noteq> []"
    by simp_all
  from searchAndFill_aligned_rows
         [of ?payload "JSON_parse_only ?payload ?parsed" ?parsed ?original 0]
       ne parse aligned i n run
  have "rows (SearchAndFillResponse.tableData ?out) ! 0 ! 0 = rows ?original ! 0 ! 0"
    by (metis sum.inject(2))
  then have "[js ''k1'', js ''m1'', js ''new''] ! 0 = [js ''k1'', js ''m1'', js ''old''] ! 0"
    by simp
  with ne parse run show ?thesis by (simp only: simp_thms)
qed

section \<open>searchAndFill with a candidate of another row count\<close>

text \<open>
  C7 as the claim states it fails on an original row that has not one cell per header: the
  last step brings every row to the header count. Here no candidate row matches, and the
  original row of one cell comes back with a second, empty cell.
\<close>

theorem searchAndFill_unmatched_row_is_padded:
  \<open>searchAndFill
     (JSON_parse_only (js ''{"tableData":{"headers":["A","B"],"rows":[]}}'')
        \<lparr> SearchAndFillResponse.tableData = \<lparr> headers = [js ''A'', js ''B''], rows = [] \<rparr>,
          searchSummary = None \<rparr>)
     (Inr (Some (js ''{"tableData":{"headers":["A","B"],"rows":[]}}'')))
     \<lparr> headers = [js ''A'', js ''B''], rows = [[js ''k1'']] \<rparr>
   = Inr \<lparr> SearchAndFillResponse.tableData =
            \<lparr> headers = [js ''A'', js ''B''], rows = [[js ''k1'', []]] \<rparr>,
          searchSummary = None \<rparr> \<and>
   [js ''k1'', []] \<noteq> [js ''k1'']\<close>
  by code_simp

text \<open>
  C7 (amended). For \<open>searchAndFill\<close>, when the candidate's row count differs from the
  original's: for each original row, the matched candidate row is the first candidate row
  whose first-column value equals the original row's. If there is one and it has at least
  as many columns as there are headers, the row is the original row with only its last
  column replaced by the matched row's last column; if there is none, or it is shorter
  than the header count, the row is the original row. The output row is that row cut to
  the header count or filled up to it with empty strings. So for an original row that has
  exactly one cell per header the output row is as the claim says.
\<close>

theorem searchAndFill_realigns_by_first_column:
  "content \<noteq> [] \<and> parseJsonResponse JSON_parse content = Some parsed \<and>
   length (rows (SearchAndFillResponse.tableData parsed)) \<noteq> length (rows original) \<and>
   i < length (rows original) \<longrightarrow>
     (\<exists>out. searchAndFill JSON_parse (Inr (Some content)) original = Inr out \<and>
        rows (SearchAndFillResponse.tableData out) ! i =
          fit (length (headers original))
            (case find (\<lambda>newRow. js_index newRow 0 = js_index (rows original ! i) 0)
                    (rows (SearchAndFillResponse.tableData parsed)) of
               Some matchedRow \<Rightarrow>
                 if length (headers original) \<le> length matchedRow
                 then (rows original ! i)[length (rows original ! i) - 1 := last matchedRow]
                 else rows original ! i
             | None \<Rightarrow> rows original ! i) \<and>
        (length (rows original ! i) = length (headers original) \<longrightarrow>
         rows (SearchAndFillResponse.tableData out) ! i =
            (case find (\<lambda>newRow. js_index newRow 0 = js_index (rows original ! i) 0)
                    (rows (SearchAndFillResponse.tableData parsed)) of
               Some matchedRow \<Rightarrow>
                 if length (headers original) \<le> length matchedRow
                 then (rows original ! i)[length (headers original) - 1 := last matchedRow]
                 else rows original ! i
             | None \<Rightarrow> rows original ! i)))"
proof
  let ?n = "length (headers original)"
  let ?o = "rows original ! i"
  let ?found = "find (\<lambda>newRow. js_index newRow 0 = js_index ?o 0)
      (rows (SearchAndFillResponse.tableData parsed))"
  let ?out = "searchAndFill_enforce original parsed"
  assume h: "content \<noteq> [] \<and> parseJsonResponse JSON_parse content = Some parsed \<and>
    length (rows (SearchAndFillResponse.tableData parsed)) \<noteq> length (rows original) \<and>
    i < length (rows original)"
  then have run: "searchAndFill JSON_parse (Inr (Some content)) original = Inr ?out"
    by (simp add: searchAndFill_parsed)
  from h have row: "rows (SearchAndFillResponse.tableData ?out) ! i =
      fit ?n (case ?found of
                Some matchedRow \<Rightarrow>
                  if ?n \<le> length matchedRow then ?o[length ?o - 1 := last matchedRow] else ?o
              | None \<Rightarrow> ?o)"
    by (simp add: enforce_row_realigned)
  have exact: "rows (SearchAndFillResponse.tableData ?out) ! i =
      (case ?found of
         Some matchedRow \<Rightarrow>
           if ?n \<le> length matchedRow then ?o[?n - 1 := last matchedRow] else ?o
       | None \<Rightarrow> ?o)"
    if "length ?o = ?n"
    using that by (simp add: row fit_exact split: option.splits)
  from run row exact show
    "\<exists>out. searchAndFill JSON_parse (Inr (Some content)) original = Inr out \<and>
        rows (SearchAndFillResponse.tableData out) ! i =
          fit ?n (case ?found of
                    Some matchedRow \<Rightarrow>
                      if ?n \<le> length matchedRow then ?o[length ?o - 1 := last matchedRow]
                      else ?o
                  | None \<Rightarrow> ?o) \<and>
        (length ?o = ?n \<longrightarrow>
         rows (SearchAndFillResponse.tableData out) ! i =
            (case ?found of
               Some matchedRow \<Rightarrow>
                 if ?n \<le> length matchedRow then ?o[?n - 1 := last matchedRow] else ?o
             | None \<Rightarrow> ?o))"
    by blast
qed


theorem searchAndFill_realigns_by_first_column_witness:
  \<open>js ''{"tableData":{"headers":["K","V"],"rows":[["k2","Y2"],["k1","X2"],["k3","Z2"]]}}'' \<noteq> [] \<and>
   parseJsonResponse
     (JSON_parse_only
        (js ''{"tableData":{"headers":["K","V"],"rows":[["k2","Y2"],["k1","X2"],["k3","Z2"]]}}'')
        \<lparr> SearchAndFillResponse.tableData =
            \<lparr> headers = [js ''K'', js ''V''],
              rows = [[js ''k2'', js ''Y2''], [js ''k1'', js ''X2''], [js ''k3'', js ''Z2'']] \<rparr>,
          searchSummary = None \<rparr>)
     (js ''{"tableData":{"headers":["K","V"],"rows":[["k2","Y2"],["k1","X2"],["k3","Z2"]]}}'')
   = Some \<lparr> SearchAndFillResponse.tableData =
            \<lparr> headers = [js ''K'', js ''V''],
              rows = [[js ''k2'', js ''Y2''], [js ''k1'', js ''X2''], [js ''k3'', js ''Z2'']] \<rparr>,
          searchSummary = None \<rparr> \<and>
   searchAndFill
     (JSON_parse_only
        (js ''{"tableData":{"headers":["K","V"],"rows":[["k2","Y2"],["k1","X2"],["k3","Z2"]]}}'')
        \<lparr> SearchAndFillResponse.tableData =
            \<lparr> headers = [js ''K'', js ''V''],
              rows = [[js ''k2'', js ''Y2''], [js ''k1'', js ''X2''], [js ''k3'', js ''Z2'']] \<rparr>,
          searchSummary = None \<rparr>)
     (Inr (Some
        (js ''{"tableData":{"headers":["K","V"],"rows":[["k2","Y2"],["k1","X2"],["k3","Z2"]]}}'')))
     \<lparr> headers = [js ''K'', js ''V''],
       rows = [[js ''k1'', js ''x''], [js ''k2'', js ''y''], [js ''k4'', js ''w''], [js ''k5'', js ''u'']] \<rparr>
   = Inr \<lparr> SearchAndFillResponse.tableData =
            \<lparr> headers = [js ''K'', js ''V''],
              rows = [[js ''k1'', js ''X2''], [js ''k2'', js ''Y2''], [js ''k4'', js ''w''],
                      [js ''k5'', js ''u'']] \<rparr>,
          searchSummary = None \<rparr> \<and>
   [js ''k1'', js ''X2''] = [js ''k1'', js ''x''][2 - 1 := last [js ''k1'', js ''X2'']]\<close>
proof -
  let ?payload = \<open>js ''{"tableData":{"headers":["K","V"],"rows":[["k2","Y2"],["k1","X2"],["k3","Z2"]]}}''\<close>
  let ?parsed = "\<lparr> SearchAndFillResponse.tableData =
            \<lparr> headers = [js ''K'', js ''V''],
              rows = [[js ''k2'', js ''Y2''], [js ''k1'', js ''X2''], [js ''k3'', js ''Z2'']] \<rparr>,
          searchSummary = None \<rparr>"
  let ?original = "\<lparr> headers = [js ''K'', js ''V''],
       rows = [[js ''k1'', js ''x''], [js ''k2'', js ''y''], [js ''k4'', js ''w''], [js ''k5'', js ''u'']] \<rparr>"
  let ?out = "\<lparr> SearchAndFillResponse.tableData =
            \<lparr> headers = [js ''K'', js ''V''],
              rows = [[js ''k1'', js ''X2''], [js ''k2'', js ''Y2''], [js ''k4'', js ''w''],
                      [js ''k5'', js ''u'']] \<rparr>,
          searchSummary = None \<rparr>"
  have ne: "?payload \<noteq> []"
    by code_simp
  have parse: "parseJsonResponse (JSON_parse_only ?payload ?parsed) ?payload = Some ?parsed"
    by code_simp
  have run: "searchAndFill (JSON_parse_only ?payload ?parsed) (Inr (Some ?payload)) ?original
      = Inr ?out"
    by code_simp
  have other: "length (rows (SearchAndFillResponse.tableData ?parsed)) \<noteq> length (rows ?original)"
    and i: "0 < length (rows ?original)"
    and exact: "length (rows ?original ! 0) = length (headers ?original)"
    by simp_all
  have found: "find (\<lambda>newRow. js_index newRow 0 = js_index (rows ?original ! 0) 0)
      (rows (SearchAndFillResponse.tableData ?parsed)) = Some [js ''k1'', js ''X2'']"
    by code_simp
  note inst = searchAndFill_realigns_by_first_column
      [of ?payload "JSON_parse_only ?payload ?parsed" ?parsed ?original 0]
  from mp [OF inst, OF conjI [OF ne conjI [OF parse conjI [OF other i]]]]
  obtain out where out: "searchAndFill (JSON_parse_only ?payload ?parsed) (Inr (Some ?payload))
        ?original = Inr out"
    and row: "length (rows ?original ! 0) = length (headers ?original) \<longrightarrow>
      rows (SearchAndFillResponse.tableData out) ! 0 =
      (case find (\<lambda>newRow. js_index newRow 0 = js_index (rows ?original ! 0) 0)
                    (rows (SearchAndFillResponse.tableData ?parsed)) of
               Some matchedRow \<Rightarrow>
                 if length (headers ?original) \<le> length matchedRow
                 then (rows ?original ! 0)[length (headers ?original) - 1 := last matchedRow]
                 else rows ?original ! 0
             | None \<Rightarrow> rows ?original ! 0)"
    by (elim exE conjE)
  from out run have "out = ?out"
    by (simp only: sum.inject)
  with row exact have "rows (SearchAndFillResponse.tableData ?out) ! 0 =
      (case find (\<lambda>newRow. js_index newRow 0 = js_index (rows ?original ! 0) 0)
                    (rows (SearchAndFillResponse.tableData ?parsed)) of
               Some matchedRow \<Rightarrow>
                 if length (headers ?original) \<le> length matchedRow
                 then (rows ?original ! 0)[length (headers ?original) - 1 := last matchedRow]
                 else rows ?original ! 0
             | None \<Rightarrow> rows ?original ! 0)"
    by (simp only:)
  then have "[js ''k1'', js ''X2''] = [js ''k1'', js ''x''][2 - 1 := last [js ''k1'', js ''X2'']]"
    by (simp only: found) simp
  with ne parse run show ?thesis by (simp only: simp_thms)
qed

section \<open>Duplicate keys among the candidate's rows\<close>

text \<open>
  C10 as the claim states it fails when the earliest matching candidate row is shorter
  than the header row: the source copies the last column only under the test
  \<open>matchedRow.length >= tableData.headers.length\<close>. Here two candidate rows carry the key
  \<open>k\<close>; the earliest has two cells against three headers, so nothing is copied from it,
  and the later, longer duplicate is not looked at: the original row comes back.
\<close>

theorem searchAndFill_short_first_match_copies_nothing:
  \<open>searchAndFill
     (JSON_parse_only
        (js ''{"tableData":{"headers":["A","B","C"],"rows":[["k","new"],["k","a","b","c"]]}}'')
        \<lparr> SearchAndFillResponse.tableData =
            \<lparr> headers = [js ''A'', js ''B'', js ''C''],
              rows = [[js ''k'', js ''new''], [js ''k'', js ''a'', js ''b'', js ''c'']] \<rparr>,
          searchSummary = None \<rparr>)
     (Inr (Some
        (js ''{"tableData":{"headers":["A","B","C"],"rows":[["k","new"],["k","a","b","c"]]}}'')))
     \<lparr> headers = [js ''A'', js ''B'', js ''C''], rows = [[js ''k'', js ''x'', js ''y'']] \<rparr>
   = Inr \<lparr> SearchAndFillResponse.tableData =
            \<lparr> headers = [js ''A'', js ''B'', js ''C''],
              rows = [[js ''k'', js ''x'', js ''y'']] \<rparr>,
          searchSummary = None \<rparr> \<and>
   find (\<lambda>newRow. js_index newRow 0 = js_index [js ''k'', js ''x'', js ''y''] 0)
     [[js ''k'', js ''new''], [js ''k'', js ''a'', js ''b'', js ''c'']]
   = Some [js ''k'', js ''new''] \<and>
   last [js ''k'', js ''x'', js ''y''] \<noteq> last [js ''k'', js ''new'']\<close>
  by code_simp

text \<open>
  C10 (amended). In the branch for a candidate of another row count: when the candidate's
  rows are \<open>earlier @ matchedRow # later\<close>, no row of \<open>earlier\<close> has the original row's
  first-column value and \<open>matchedRow\<close> has it, the output row is built from \<open>matchedRow\<close>
  alone, whatever \<open>later\<close> holds: its last-column value is copied into the original row's
  last column when it has at least as many columns as there are headers, and nothing is
  copied otherwise, also when a later duplicate is longer. The row is then cut to the
  header count or filled up to it with empty strings.
\<close>

theorem searchAndFill_first_match_wins:
  "content \<noteq> [] \<and> parseJsonResponse JSON_parse content = Some parsed \<and>
   length (rows (SearchAndFillResponse.tableData parsed)) \<noteq> length (rows original) \<and>
   i < length (rows original) \<and>
   rows (SearchAndFillResponse.tableData parsed) = earlier @ matchedRow # later \<and>
   (\<forall>r \<in> set earlier. js_index r 0 \<noteq> js_index (rows original ! i) 0) \<and>
   js_index matchedRow 0 = js_index (rows original ! i) 0 \<longrightarrow>
     (\<exists>out. searchAndFill JSON_parse (Inr (Some content)) original = Inr out \<and>
        rows (SearchAndFillResponse.tableData out) ! i =
          fit (length (headers original))
            (if length (headers original) \<le> length matchedRow
             then (rows original ! i)[length (rows original ! i) - 1 := last matchedRow]
             else rows original ! i))"
proof
  let ?n = "length (headers original)"
  let ?o = "rows original ! i"
  let ?out = "searchAndFill_enforce original parsed"
  assume h: "content \<noteq> [] \<and> parseJsonResponse JSON_parse content = Some parsed \<and>
    length (rows (SearchAndFillResponse.tableData parsed)) \<noteq> length (rows original) \<and>
    i < length (rows original) \<and>
    rows (SearchAndFillResponse.tableData parsed) = earlier @ matchedRow # later \<and>
    (\<forall>r \<in> set earlier. js_index r 0 \<noteq> js_index (rows original ! i) 0) \<and>
    js_index matchedRow 0 = js_index (rows original ! i) 0"
  then have run: "searchAndFill JSON_parse (Inr (Some content)) original = Inr ?out"
    by (simp add: searchAndFill_parsed)
  from h have "find (\<lambda>newRow. js_index newRow 0 = js_index ?o 0) (earlier @ matchedRow # later)
      = Some matchedRow"
    by (intro find_first_match) simp_all
  with h have found: "find (\<lambda>newRow. js_index newRow 0 = js_index ?o 0)
      (rows (SearchAndFillResponse.tableData parsed)) = Some matchedRow"
    by simp
  from h have other:
      "length (rows (SearchAndFillResponse.tableData parsed)) \<noteq> length (rows original)"
    and i: "i < length (rows original)"
    by blast+
  from other i have "rows (SearchAndFillResponse.tableData ?out) ! i =
      fit ?n (case find (\<lambda>newRow. js_index newRow 0 = js_index ?o 0)
                   (rows (SearchAndFillResponse.tableData parsed)) of
                Some matchedRow \<Rightarrow>
                  if ?n \<le> length matchedRow then ?o[length ?o - 1 := last matchedRow] else ?o
              | None \<Rightarrow> ?o)"
    by (rule enforce_row_realigned)
  then have "rows (SearchAndFillResponse.tableData ?out) ! i =
      fit ?n (if ?n \<le> length matchedRow then ?o[length ?o - 1 := last matchedRow] else ?o)"
    by (simp only: found option.case)
  with run show "\<exists>out. searchAndFill JSON_parse (Inr (Some content)) original = Inr out \<and>
      rows (SearchAndFillResponse.tableData out) ! i =
        fit ?n (if ?n \<le> length matchedRow then ?o[length ?o - 1 := last matchedRow] else ?o)"
    by blast
qed

theorem searchAndFill_first_match_wins_witness:
  \<open>js ''{"tableData":{"headers":["K","V"],"rows":[["q","no"],["k","first"],["k","second"]]}}'' \<noteq> [] \<and>
   parseJsonResponse
     (JSON_parse_only
        (js ''{"tableData":{"headers":["K","V"],"rows":[["q","no"],["k","first"],["k","second"]]}}'')
        \<lparr> SearchAndFillResponse.tableData =
            \<lparr> headers = [js ''K'', js ''V''],
              rows = [[js ''q'', js ''no''], [js ''k'', js ''first''], [js ''k'', js ''second'']] \<rparr>,
          searchSummary = None \<rparr>)
     (js ''{"tableData":{"headers":["K","V"],"rows":[["q","no"],["k","first"],["k","second"]]}}'')
   = Some \<lparr> SearchAndFillResponse.tableData =
            \<lparr> headers = [js ''K'', js ''V''],
              rows = [[js ''q'', js ''no''], [js ''k'', js ''first''], [js ''k'', js ''second'']] \<rparr>,
          searchSummary = None \<rparr> \<and>
   searchAndFill
     (JSON_parse_only
        (js ''{"tableData":{"headers":["K","V"],"rows":[["q","no"],["k","first"],["k","second"]]}}'')
        \<lparr> SearchAndFillResponse.tableData =
            \<lparr> headers = [js ''K'', js ''V''],
              rows = [[js ''q'', js ''no''], [js ''k'', js ''first''], [js ''k'', js ''second'']] \<rparr>,
          searchSummary = None \<rparr>)
     (Inr (Some
        (js ''{"tableData":{"headers":["K","V"],"rows":[["q","no"],["k","first"],["k","second"]]}}'')))
     \<lparr> headers = [js ''K'', js ''V''], rows = [[js ''k'', js ''x'']] \<rparr>
   = Inr \<lparr> SearchAndFillResponse.tableData =
            \<lparr> headers = [js ''K'', js ''V''], rows = [[js ''k'', js ''first'']] \<rparr>,
          searchSummary = None \<rparr> \<and>
   [js ''k'', js ''first''] =
     fit 2 ([js ''k'', js ''x''][2 - 1 := last [js ''k'', js ''first'']])\<close>
proof -
  let ?payload = \<open>js ''{"tableData":{"headers":["K","V"],"rows":[["q","no"],["k","first"],["k","second"]]}}''\<close>
  let ?parsed = "\<lparr> SearchAndFillResponse.tableData =
            \<lparr> headers = [js ''K'', js ''V''],
              rows = [[js ''q'', js ''no''], [js ''k'', js ''first''], [js ''k'', js ''second'']] \<rparr>,
          searchSummary = None \<rparr>"
  let ?original = "\<lparr> headers = [js ''K'', js ''V''], rows = [[js ''k'', js ''x'']] \<rparr>"
  let ?out = "\<lparr> SearchAndFillResponse.tableData =
            \<lparr> headers = [js ''K'', js ''V''], rows = [[js ''k'', js ''first'']] \<rparr>,
          searchSummary = None \<rparr>"
  have ne: "?payload \<noteq> []"
    by code_simp
  have parse: "parseJsonResponse (JSON_parse_only ?payload ?parsed) ?payload = Some ?parsed"
    by code_simp
  have run: "searchAndFill (JSON_parse_only ?payload ?parsed) (Inr (Some ?payload)) ?original
      = Inr ?out"
    by code_simp
  have other: "length (rows (SearchAndFillResponse.tableData ?parsed)) \<noteq> length (rows ?original)"
    and i: "0 < length (rows ?original)"
    and split: "rows (SearchAndFillResponse.tableData ?parsed) =
      [[js ''q'', js ''no'']] @ [js ''k'', js ''first''] # [[js ''k'', js ''second'']]"
    by simp_all
  have earlier: "\<forall>r \<in> set [[js ''q'', js ''no'']]. js_index r 0 \<noteq> js_index (rows ?original ! 0) 0"
    by code_simp
  have matched: "js_index [js ''k'', js ''first''] 0 = js_index (rows ?original ! 0) 0"
    by code_simp
  note inst = searchAndFill_first_match_wins
      [of ?payload "JSON_parse_only ?payload ?parsed" ?parsed ?original 0
          "[[js ''q'', js ''no'']]" "[js ''k'', js ''first'']" "[[js ''k'', js ''second'']]"]
  from mp [OF inst, OF conjI [OF ne conjI [OF parse conjI [OF other conjI [OF i
        conjI [OF split conjI [OF earlier matched]]]]]]]
  obtain out where out: "searchAndFill (JSON_parse_only ?payload ?parsed) (Inr (Some ?payload))
        ?original = Inr out"
    and row: "rows (SearchAndFillResponse.tableData out) ! 0 =
      fit (length (headers ?original))
        (if length (headers ?original) \<le> length [js ''k'', js ''first'']
         then (rows ?original ! 0)[length (rows ?original ! 0) - 1 := last [js ''k'', js ''first'']]
         else rows ?original ! 0)"
    by (elim exE conjE)
  from out run have "out = ?out"
    by (simp only: sum.inject)
  with row have "rows (SearchAndFillResponse.tableData ?out) ! 0 =
      fit (length (headers ?original))
        (if length (headers ?original) \<le> length [js ''k'', js ''first'']
         then (rows ?original ! 0)[length (rows ?original ! 0) - 1 := last [js ''k'', js ''first'']]
         else rows ?original ! 0)"
    by (simp only:)
  then have "[js ''k'', js ''first''] =
      fit 2 ([js ''k'', js ''x''][2 - 1 := last [js ''k'', js ''first'']])"
    by (simp add: numeral_2_eq_2)
  with ne parse run show ?thesis by (simp only: simp_thms)
qed

section \<open>The regular expression against the extraction policy\<close>

lemma backtick_not_space: "\<not> is_space 0x60"
  by (simp add: is_space_def)

lemma fence_head: "take 3 (c # cs) = fence \<Longrightarrow> c = 0x60"
  by (cases cs) (auto simp: fence_def)

lemma lazy_capture_find_fence: "lazy_capture s = map_option (\<lambda>j. take j s) (find_fence s)"
  by (induction s) (auto simp: option.map_comp comp_def)

lemma lazy_capture_drop: "lazy_capture s = None \<Longrightarrow> lazy_capture (drop k s) = None"
proof (induction s arbitrary: k)
  case Nil
  then show ?case by simp
next
  case (Cons c cs)
  then show ?case by (cases k) (auto split: if_splits)
qed

lemma lazy_capture_head:
  "lazy_capture (c # cs) = Some g \<Longrightarrow> g = [] \<or> (\<exists>g'. g = c # g')"
  by (auto split: if_splits)

lemma spaces_then_capture_eq:
  "spaces_then_capture s = map_option (dropWhile is_space) (lazy_capture s)"
proof (induction s)
  case Nil
  then show ?case by simp
next
  case (Cons c cs)
  show ?case
  proof (cases "is_space c")
    case True
    then have "take 3 (c # cs) \<noteq> fence"
      using fence_head backtick_not_space by blast
    with True Cons show ?thesis
      by (cases "lazy_capture cs") auto
  next
    case False
    then show ?thesis
      by (cases "lazy_capture (c # cs)") (auto dest: lazy_capture_head simp del: lazy_capture.simps)
  qed
qed

lemma json_tag_unfold: "json_tag = [0x6A, 0x73, 0x6F, 0x6E]"
  by (simp add: json_tag_def js_def)

lemma length_json_tag: "length json_tag = 4"
  by (simp add: json_tag_unfold)

lemma tagged_split: "take 4 r = json_tag \<Longrightarrow> r = json_tag @ drop 4 r"
  by (metis append_take_drop_id)

lemma lazy_capture_tag:
  "lazy_capture (json_tag @ r) = map_option (\<lambda>g. json_tag @ g) (lazy_capture r)"
  by (simp add: json_tag_unfold fence_def option.map_comp comp_def)

lemma strip_tag_tagged: "strip_tag (json_tag @ g) = g"
  by (simp add: strip_tag_def length_json_tag)

lemma strip_tag_prefix:
  assumes "take 4 r \<noteq> json_tag"
  shows "strip_tag (take j r) = take j r"
proof -
  have "take 4 (take j r) \<noteq> json_tag"
  proof
    assume h: "take 4 (take j r) = json_tag"
    then have "length (take 4 (take j r)) = 4"
      by (simp add: length_json_tag)
    then have "4 \<le> j" by simp
    then have "take 4 (take j r) = take 4 r" by (simp add: min_def)
    with h assms show False by simp
  qed
  then show ?thesis by (simp add: strip_tag_def)
qed

lemma match_here_eq:
  "match_here s =
     (if take 3 s = fence
      then map_option (\<lambda>g. dropWhile is_space (strip_tag g)) (lazy_capture (drop 3 s))
      else None)"
proof (cases "take 3 s = fence")
  case False
  then show ?thesis by (simp add: match_here_def)
next
  case fenced: True
  let ?r = "drop 3 s"
  show ?thesis
  proof (cases "take 4 ?r = json_tag")
    case True
    then have r: "?r = json_tag @ drop 4 ?r" by (rule tagged_split)
    have "lazy_capture ?r = map_option (\<lambda>g. json_tag @ g) (lazy_capture (drop 4 ?r))"
      by (subst r) (rule lazy_capture_tag)
    then show ?thesis
      using fenced True
      by (cases "lazy_capture (drop 4 ?r)")
         (simp_all add: match_here_def spaces_then_capture_eq strip_tag_tagged Let_def)
  next
    case False
    then show ?thesis
      using fenced
      by (simp add: match_here_def spaces_then_capture_eq lazy_capture_find_fence
          strip_tag_prefix option.map_comp comp_def Let_def)
  qed
qed

lemma regex_match_eq:
  "regex_match s =
     (case find_fence s of
        None \<Rightarrow> None
      | Some i \<Rightarrow>
          map_option (\<lambda>g. dropWhile is_space (strip_tag g)) (lazy_capture (drop 3 (drop i s))))"
proof (induction s)
  case Nil
  then show ?case by (simp add: match_here_eq fence_def)
next
  case (Cons c cs)
  show ?case
  proof (cases "take 3 (c # cs) = fence")
    case False
    then show ?thesis
      using Cons by (cases "find_fence cs") (simp_all add: match_here_eq)
  next
    case True
    show ?thesis
    proof (cases "lazy_capture (drop 3 (c # cs))")
      case (Some g)
      with True show ?thesis by (simp add: match_here_eq)
    next
      case None
      then have none: "lazy_capture (drop 2 cs) = None" by simp
      have "regex_match cs = None"
      proof (cases "find_fence cs")
        case None
        with Cons show ?thesis by simp
      next
        case (Some i)
        have "(3::nat) + i = i + 1 + 2" by simp
        then have "drop 3 (drop i cs) = drop (i + 1) (drop 2 cs)"
          by (simp only: drop_drop)
        moreover have "lazy_capture (drop (i + 1) (drop 2 cs)) = None"
          using none by (rule lazy_capture_drop)
        ultimately have "lazy_capture (drop 3 (drop i cs)) = None"
          by (simp only:)
        with Cons Some show ?thesis by simp
      qed
      with True None show ?thesis by (simp add: match_here_eq)
    qed
  qed
qed

lemma trim_dropWhile: "trim (dropWhile is_space g) = trim g"
  by (simp add: trim_def)

lemma first_fenced_block_eq:
  "first_fenced_block text =
     (case find_fence text of
        None \<Rightarrow> None
      | Some i \<Rightarrow> lazy_capture (drop 3 (drop i text)))"
  by (simp add: first_fenced_block_def lazy_capture_find_fence Let_def
      split: option.splits)

lemma parseJsonResponse_extractJson:
  "parseJsonResponse JSON_parse text = extractJson JSON_parse text"
  by (simp add: parseJsonResponse_def extractJson_def regex_match_eq first_fenced_block_eq
      trim_dropWhile Let_def split: option.splits)

lemma lazy_capture_append_newline:
  "lazy_capture xs = None \<Longrightarrow>
   lazy_capture (xs @ 0x0A # ys) = map_option (\<lambda>g. xs @ 0x0A # g) (lazy_capture ys)"
proof (induction xs)
  case Nil
  then show ?case
    by (simp add: fence_def option.map_comp comp_def)
next
  case (Cons c cs)
  from Cons.prems have nofence: "take 3 (c # cs) \<noteq> fence" and rest: "lazy_capture cs = None"
    by (auto split: if_splits)
  have "take 3 (c # cs @ 0x0A # ys) \<noteq> fence"
  proof (cases cs)
    case Nil
    then show ?thesis by (simp add: fence_def)
  next
    case (Cons d ds)
    with nofence show ?thesis
      by (cases ds) (auto simp: fence_def)
  qed
  with Cons.IH [OF rest] show ?case
    by (simp add: option.map_comp comp_def)
qed

lemma lazy_capture_fence: "lazy_capture fence = Some []"
  by (simp add: fence_def)

lemma first_fenced_block_fenced:
  assumes "find_fence payload = None"
  shows "first_fenced_block (fenced payload) = Some (json_tag @ 0x0A # payload @ [0x0A])"
proof -
  from assms have none: "lazy_capture payload = None"
    by (simp add: lazy_capture_find_fence)
  have start: "find_fence (fenced payload) = Some 0"
    by (simp add: fenced_def fence_def)
  have "lazy_capture (json_tag @ 0x0A # payload @ 0x0A # fence) =
      Some (json_tag @ 0x0A # payload @ [0x0A])"
    by (simp add: lazy_capture_tag lazy_capture_append_newline [OF none] lazy_capture_fence
        fence_def del: lazy_capture.simps)
       (simp add: lazy_capture_append_newline [OF none] fence_def)
  moreover have "drop 3 (drop 0 (fenced payload)) = json_tag @ 0x0A # payload @ 0x0A # fence"
    by (simp add: fenced_def fence_def)
  ultimately show ?thesis
    by (simp only: first_fenced_block_eq start option.case)
qed

lemma trim_leading_space: "is_space c \<Longrightarrow> trim (c # s) = trim s"
  by (simp add: trim_def)

lemma trim_trailing_space:
  assumes "is_space c"
  shows "trim (s @ [c]) = trim s"
proof (cases "\<forall>x \<in> set s. is_space x")
  case True
  then have "dropWhile is_space s = []"
    by (induction s) auto
  moreover from True assms have "dropWhile is_space (s @ [c]) = []"
    by (induction s) auto
  ultimately show ?thesis by (simp only: trim_def)
next
  case False
  then have "dropWhile is_space (s @ [c]) = dropWhile is_space s @ [c]"
    by (auto simp: dropWhile_append1)
  with assms show ?thesis by (simp add: trim_def)
qed

lemma newline_is_space: "is_space 0x0A"
  by (simp add: is_space_def)

lemma extractJson_fenced:
  assumes "find_fence payload = None"
  shows "extractJson JSON_parse (fenced payload) = JSON_parse (trim payload)"
proof -
  have "trim (0x0A # payload @ [0x0A]) = trim payload"
    using trim_trailing_space [OF newline_is_space, of "0x0A # payload"]
    by (simp add: trim_leading_space newline_is_space)
  then show ?thesis
    by (simp add: extractJson_def first_fenced_block_fenced [OF assms] strip_tag_tagged)
qed

lemma extractJson_unfenced:
  "find_fence payload = None \<Longrightarrow> extractJson JSON_parse payload = JSON_parse (trim payload)"
  by (simp add: extractJson_def first_fenced_block_def)

section \<open>Response extraction\<close>

text \<open>
  C9 as the claim states it fails for a payload that holds a fence itself: the JSON text
  \<open>"```"\<close> (a string of three backticks) parses bare, since it has no second fence to
  close a block; wrapped in a fenced block, the first block ends at the payload's own
  backticks, its content is a lone quote, and \<open>JSON.parse\<close> throws on that.
\<close>

theorem fenced_payload_with_backticks_differs:
  \<open>parseJsonResponse (JSON_parse_only (js ''"```"'') (js ''```'')) (js ''"```"'')
     = Some (js ''```'') \<and>
   js ''```json\<newline>"```"\<newline>```'' = fenced (js ''"```"'') \<and>
   regex_match (js ''```json\<newline>"```"\<newline>```'') = Some [0x22] \<and>
   parseJsonResponse (JSON_parse_only (js ''"```"'') (js ''```''))
     (js ''```json\<newline>"```"\<newline>```'') = None\<close>
  by code_simp

text \<open>
  C9 (amended). \<open>parseJsonResponse\<close> follows the extraction policy: it parses the trimmed
  content of the first fenced block (without the optional \<open>json\<close> tag) when the text has
  one, and the trimmed text otherwise. So a payload that holds no fence itself parses to
  the same value bare and wrapped in a fenced block; in particular the fenced and the bare
  form of \<open>{"a":1}\<close> both parse to what \<open>JSON.parse\<close> makes of \<open>{"a":1}\<close>.
\<close>

theorem parseJsonResponse_policy:
  \<open>parseJsonResponse JSON_parse text = extractJson JSON_parse text \<and>
   (find_fence payload = None \<longrightarrow>
      parseJsonResponse JSON_parse (fenced payload) = parseJsonResponse JSON_parse payload \<and>
      parseJsonResponse JSON_parse payload = JSON_parse (trim payload)) \<and>
   parseJsonResponse JSON_parse (js ''```json\<newline>{"a":1}\<newline>```'') =
     parseJsonResponse JSON_parse (js ''{"a":1}'') \<and>
   parseJsonResponse JSON_parse (js ''{"a":1}'') = JSON_parse (js ''{"a":1}'')\<close>
proof (intro conjI impI)
  show "parseJsonResponse JSON_parse text = extractJson JSON_parse text"
    by (rule parseJsonResponse_extractJson)
next
  assume "find_fence payload = None"
  then show "parseJsonResponse JSON_parse (fenced payload) = parseJsonResponse JSON_parse payload"
    by (simp add: parseJsonResponse_extractJson extractJson_fenced extractJson_unfenced)
next
  assume "find_fence payload = None"
  then show "parseJsonResponse JSON_parse payload = JSON_parse (trim payload)"
    by (simp add: parseJsonResponse_extractJson extractJson_unfenced)
next
  let ?payload = \<open>js ''{"a":1}''\<close>
  have wrapped: \<open>js ''```json\<newline>{"a":1}\<newline>```'' = fenced ?payload\<close>
    by code_simp
  have bare: "find_fence ?payload = None"
    by code_simp
  have trimmed: "trim ?payload = ?payload"
    by code_simp
  show \<open>parseJsonResponse JSON_parse (js ''```json\<newline>{"a":1}\<newline>```'') =
      parseJsonResponse JSON_parse (js ''{"a":1}'')\<close>
    by (simp only: wrapped parseJsonResponse_extractJson extractJson_fenced [OF bare]
        extractJson_unfenced [OF bare])
  show \<open>parseJsonResponse JSON_parse (js ''{"a":1}'') = JSON_parse (js ''{"a":1}'')\<close>
    by (simp only: parseJsonResponse_extractJson extractJson_unfenced [OF bare] trimmed)
qed

theorem parseJsonResponse_policy_witness:
  \<open>find_fence (js ''{"a":1}'') = None \<and>
   parseJsonResponse (JSON_parse_only (js ''{"a":1}'') [(''a'', 1::int)])
     (fenced (js ''{"a":1}'')) = Some [(''a'', 1)] \<and>
   parseJsonResponse (JSON_parse_only (js ''{"a":1}'') [(''a'', 1::int)])
     (js ''{"a":1}'') = Some [(''a'', 1)] \<and>
   parseJsonResponse (JSON_parse_only (js ''{"a":1}'') [(''a'', 1::int)])
     (js ''Here is the table:\<newline>```\<newline>  {"a":1}\<newline>```\<newline>Anything else?'')
     = Some [(''a'', 1)]\<close>
proof -
  let ?payload = \<open>js ''{"a":1}''\<close>
  let ?parse = "JSON_parse_only ?payload [(''a'', 1::int)]"
  have bare: "find_fence ?payload = None"
    by code_simp
  have known: "?parse (trim ?payload) = Some [(''a'', 1)]"
    by code_simp
  have prose: \<open>parseJsonResponse ?parse
      (js ''Here is the table:\<newline>```\<newline>  {"a":1}\<newline>```\<newline>Anything else?'')
      = Some [(''a'', 1)]\<close>
    by code_simp
  note inst = parseJsonResponse_policy [of ?parse ?payload ?payload]
  from conjunct1 [OF conjunct2 [OF inst]] bare
  have "parseJsonResponse ?parse (fenced ?payload) = parseJsonResponse ?parse ?payload"
    and "parseJsonResponse ?parse ?payload = ?parse (trim ?payload)"
    by simp_all
  with bare known prose show ?thesis
    by (simp only: simp_thms)
qed

end
